theory Spec2Isabelle
  imports Main "HOL-Library.Finite_Map" "HOL-Library.Multiset" "HOL-Library.Word"
begin

section \<open>Shared types (types.go)\<close>

text \<open>
  \<^verbatim>\<open>ServiceState\<close> is an \<^verbatim>\<open>int32\<close> enumeration declared with \<^verbatim>\<open>iota\<close>; the seven
  constants are the only values the package ever stores.
\<close>

datatype ServiceState =
    StateUninitialized
  | StateInitialized
  | StateStarting
  | StateRunning
  | StateStopping
  | StateStopped
  | StateError

fun String :: "ServiceState \<Rightarrow> string" where
  "String StateUninitialized = ''Uninitialized''"
| "String StateInitialized = ''Initialized''"
| "String StateStarting = ''Starting''"
| "String StateRunning = ''Running''"
| "String StateStopping = ''Stopping''"
| "String StateStopped = ''Stopped''"
| "String StateError = ''Error''"

text \<open>The error codes of types.go, in declaration order. There is no other code.\<close>

datatype ErrorCode =
    ErrNone
  | ErrServiceNotFound
  | ErrServiceAlreadyExists
  | ErrInvalidState
  | ErrStartupTimeout
  | ErrStartupFailed
  | ErrShutdownTimeout
  | ErrShutdownFailed
  | ErrDependencyFailed

text \<open>
  Go's \<^verbatim>\<open>error\<close> values as the package builds them: a \<^verbatim>\<open>*ServiceError\<close> (code, message,
  optional cause), the result of \<^verbatim>\<open>fmt.Errorf\<close> (the format string and its arguments, kept
  unrendered; \<^verbatim>\<open>ArgErr\<close> is the operand of \<^verbatim>\<open>%w\<close>), an error made by caller code
  (\<^verbatim>\<open>errors.New\<close>), and the two errors a context reports.
\<close>

datatype error =
    ServiceError (Code: ErrorCode) (Message: string) (Err: "error option")
  | Errorf string "fmt_arg list"
  | ErrorsNew string
  | Canceled
  | DeadlineExceeded
and fmt_arg =
    ArgStr string
  | ArgInt int
  | ArgErr "error option"

type_synonym ServicePriority = int

definition PriorityHighest :: ServicePriority where "PriorityHighest = 0"
definition PriorityHigh :: ServicePriority where "PriorityHigh = 25"
definition PriorityNormal :: ServicePriority where "PriorityNormal = 50"
definition PriorityLow :: ServicePriority where "PriorityLow = 75"
definition PriorityLowest :: ServicePriority where "PriorityLowest = 100"

section \<open>The state machine (state\_machine.go)\<close>

text \<open>
  \<^verbatim>\<open>onTransition\<close> is a caller's closure; the model keeps whether it is set and the list of
  \<open>(from, to)\<close> pairs it has been called with.
\<close>

record StateMachine =
  state :: ServiceState
  transitions :: "ServiceState \<rightharpoonup> ServiceState list"
  onTransition :: bool
  notified :: "(ServiceState \<times> ServiceState) list"

definition makeDefaultTransitions :: "ServiceState \<rightharpoonup> ServiceState list" where
  "makeDefaultTransitions =
     [StateUninitialized \<mapsto> [StateInitialized],
      StateInitialized \<mapsto> [StateStarting],
      StateStarting \<mapsto> [StateRunning, StateError],
      StateRunning \<mapsto> [StateStopping, StateError],
      StateStopping \<mapsto> [StateStopped, StateError],
      StateStopped \<mapsto> [StateStarting],
      StateError \<mapsto> [StateInitialized, StateStopped]]"

definition NewStateMachine :: "ServiceState \<Rightarrow> bool \<Rightarrow> StateMachine" where
  "NewStateMachine initial cb =
     \<lparr>state = initial, transitions = makeDefaultTransitions, onTransition = cb, notified = []\<rparr>"

text \<open>The \<^verbatim>\<open>for _, state := range allowed\<close> loop of \<^verbatim>\<open>isValidTransition\<close>.\<close>

fun allowed_has :: "ServiceState list \<Rightarrow> ServiceState \<Rightarrow> bool" where
  "allowed_has [] to = False"
| "allowed_has (s # rest) to = (if s = to then True else allowed_has rest to)"

definition isValidTransition :: "StateMachine \<Rightarrow> ServiceState \<Rightarrow> ServiceState \<Rightarrow> bool" where
  "isValidTransition sm from to =
     (case transitions sm from of
        None \<Rightarrow> False
      | Some allowed \<Rightarrow> allowed_has allowed to)"

text \<open>\<^verbatim>\<open>atomic.Int32.CompareAndSwap\<close>: the new machine and whether the swap happened.\<close>

definition CompareAndSwap :: "StateMachine \<Rightarrow> ServiceState \<Rightarrow> ServiceState \<Rightarrow> StateMachine \<times> bool" where
  "CompareAndSwap sm old new =
     (if state sm = old then (sm\<lparr>state := new\<rparr>, True) else (sm, False))"

text \<open>
  \<^verbatim>\<open>TransitionTo\<close>. Between the \<^verbatim>\<open>Load\<close> and the \<^verbatim>\<open>CompareAndSwap\<close> another goroutine
  may store a state; \<open>other\<close> is that store (\<open>None\<close>: nobody interferes, the sequential
  case). The first component is the machine after the call.
\<close>

definition TransitionTo ::
  "StateMachine \<Rightarrow> ServiceState \<Rightarrow> ServiceState option \<Rightarrow> StateMachine \<times> error option" where
  "TransitionTo sm newState other =
     (let currentState = state sm in
      if \<not> isValidTransition sm currentState newState then
        (sm, Some (ServiceError ErrInvalidState
           (''invalid state transition from '' @ String currentState @ '' to '' @ String newState)
           None))
      else
        let sm1 = (case other of None \<Rightarrow> sm | Some s \<Rightarrow> sm\<lparr>state := s\<rparr>);
            (sm2, swapped) = CompareAndSwap sm1 currentState newState
        in if \<not> swapped then
             (sm2, Some (ServiceError ErrInvalidState ''state was changed by another goroutine'' None))
           else if onTransition sm2 then
             (sm2\<lparr>notified := notified sm2 @ [(currentState, newState)]\<rparr>, None)
           else (sm2, None))"

definition Current :: "StateMachine \<Rightarrow> ServiceState" where
  "Current sm = state sm"

definition AddTransition :: "StateMachine \<Rightarrow> ServiceState \<Rightarrow> ServiceState list \<Rightarrow> StateMachine" where
  "AddTransition sm from to =
     (let t = (case transitions sm from of None \<Rightarrow> (transitions sm)(from \<mapsto> []) | Some _ \<Rightarrow> transitions sm)
      in sm\<lparr>transitions := t(from \<mapsto> the (t from) @ to)\<rparr>)"

text \<open>\<^verbatim>\<open>RemoveTransition\<close> drops the first occurrence of the target, if there is one.\<close>

definition RemoveTransition :: "StateMachine \<Rightarrow> ServiceState \<Rightarrow> ServiceState \<Rightarrow> StateMachine" where
  "RemoveTransition sm from to =
     (case transitions sm from of
        Some allowed \<Rightarrow> sm\<lparr>transitions := (transitions sm)(from \<mapsto> remove1 to allowed)\<rparr>
      | None \<Rightarrow> sm)"

definition Reset :: "StateMachine \<Rightarrow> ServiceState \<Rightarrow> StateMachine" where
  "Reset sm initialState = sm\<lparr>state := initialState\<rparr>"

text \<open>
  The edges as the specification lists them (section 4.2), written from its words, to be
  compared with the table of the code.
\<close>

fun documented_edge :: "ServiceState \<Rightarrow> ServiceState \<Rightarrow> bool" where
  "documented_edge StateUninitialized t = (t = StateInitialized)"
| "documented_edge StateInitialized t = (t = StateStarting)"
| "documented_edge StateStarting t = (t = StateRunning \<or> t = StateError)"
| "documented_edge StateRunning t = (t = StateStopping \<or> t = StateError)"
| "documented_edge StateStopping t = (t = StateStopped \<or> t = StateError)"
| "documented_edge StateStopped t = (t = StateStarting)"
| "documented_edge StateError t = (t = StateInitialized \<or> t = StateStopped)"

section \<open>The default service (base\_service.go)\<close>

text \<open>
  A lifecycle hook is a closure of the caller: \<^verbatim>\<open>func(context.Context) error\<close>. What it
  reads and writes (the context it is handed included) is the world \<open>'w\<close>; it returns
  its error (\<open>None\<close> is \<^verbatim>\<open>nil\<close>) and the world it leaves. A hook field is \<open>None\<close>
  when no hook is set.
\<close>

type_synonym 'w hook = "'w \<Rightarrow> error option \<times> 'w"

record 'w BaseService =
  name :: string
  deps :: "string list"
  priority :: ServicePriority
  stateMachine :: StateMachine
  initFunc :: "'w hook option"
  startFunc :: "'w hook option"
  stopFunc :: "'w hook option"
  updateFunc :: "'w hook option"

definition SetInitFunc :: "'w BaseService \<Rightarrow> 'w hook option \<Rightarrow> 'w BaseService" where
  "SetInitFunc bs f = bs\<lparr>initFunc := f\<rparr>"

definition SetStartFunc :: "'w BaseService \<Rightarrow> 'w hook option \<Rightarrow> 'w BaseService" where
  "SetStartFunc bs f = bs\<lparr>startFunc := f\<rparr>"

definition SetStopFunc :: "'w BaseService \<Rightarrow> 'w hook option \<Rightarrow> 'w BaseService" where
  "SetStopFunc bs f = bs\<lparr>stopFunc := f\<rparr>"

definition SetUpdateFunc :: "'w BaseService \<Rightarrow> 'w hook option \<Rightarrow> 'w BaseService" where
  "SetUpdateFunc bs f = bs\<lparr>updateFunc := f\<rparr>"

definition WithPriority :: "ServicePriority \<Rightarrow> 'w BaseService \<Rightarrow> 'w BaseService" where
  "WithPriority p bs = bs\<lparr>priority := p\<rparr>"

text \<open>
  \<^verbatim>\<open>NewBaseService\<close>: the options run first, then the state machine is made, with
  \<^verbatim>\<open>handleStateChange\<close> as its callback. The machine is reachable through no exported
  name, so outside the package its table stays the default one.
\<close>

definition NewBaseService ::
  "string \<Rightarrow> string list \<Rightarrow> ('w BaseService \<Rightarrow> 'w BaseService) list \<Rightarrow> 'w BaseService" where
  "NewBaseService nm ds opts =
     (fold (\<lambda>opt bs. opt bs) opts
        \<lparr>name = nm, deps = ds, priority = PriorityNormal,
         stateMachine = NewStateMachine StateUninitialized True,
         initFunc = None, startFunc = None, stopFunc = None, updateFunc = None\<rparr>)
     \<lparr>stateMachine := NewStateMachine StateUninitialized True\<rparr>"

definition State :: "'w BaseService \<Rightarrow> ServiceState" where
  "State bs = Current (stateMachine bs)"

text \<open>
  The methods below run on one goroutine: every \<^verbatim>\<open>TransitionTo\<close> is called with no
  interfering store. Each returns the service and the world it leaves, and its error.
\<close>

definition Init :: "'w BaseService \<Rightarrow> 'w \<Rightarrow> 'w BaseService \<times> 'w \<times> error option" where
  "Init bs w =
     (case TransitionTo (stateMachine bs) StateInitialized None of
        (sm1, Some err) \<Rightarrow>
          (bs\<lparr>stateMachine := sm1\<rparr>, w,
           Some (Errorf ''failed to transition to Initialized state: %w'' [ArgErr (Some err)]))
      | (sm1, None) \<Rightarrow>
          (case initFunc bs of
             None \<Rightarrow> (bs\<lparr>stateMachine := sm1\<rparr>, w, None)
           | Some f \<Rightarrow>
               (case f w of
                  (Some err, w1) \<Rightarrow>
                    (bs\<lparr>stateMachine := fst (TransitionTo sm1 StateError None)\<rparr>, w1,
                     Some (Errorf ''init function failed: %w'' [ArgErr (Some err)]))
                | (None, w1) \<Rightarrow> (bs\<lparr>stateMachine := sm1\<rparr>, w1, None))))"

definition Start_from_Initialized ::
  "'w BaseService \<Rightarrow> 'w \<Rightarrow> 'w BaseService \<times> 'w \<times> error option" where
  "Start_from_Initialized bs w =
     (case TransitionTo (stateMachine bs) StateStarting None of
        (sm1, Some err) \<Rightarrow>
          (bs\<lparr>stateMachine := sm1\<rparr>, w,
           Some (Errorf ''failed to transition to Starting state: %w'' [ArgErr (Some err)]))
      | (sm1, None) \<Rightarrow>
          (case startFunc bs of
             None \<Rightarrow>
               (case TransitionTo sm1 StateRunning None of
                  (sm2, r) \<Rightarrow> (bs\<lparr>stateMachine := sm2\<rparr>, w, r))
           | Some f \<Rightarrow>
               (case f w of
                  (Some err, w1) \<Rightarrow>
                    (bs\<lparr>stateMachine := fst (TransitionTo sm1 StateError None)\<rparr>, w1,
                     Some (Errorf ''start function failed: %w'' [ArgErr (Some err)]))
                | (None, w1) \<Rightarrow>
                    (case TransitionTo sm1 StateRunning None of
                       (sm2, r) \<Rightarrow> (bs\<lparr>stateMachine := sm2\<rparr>, w1, r)))))"

text \<open>
  \<^verbatim>\<open>Start\<close>: \<^verbatim>\<open>Init\<close> first when the service is uninitialised; the rest of the body
  (from the transition to Starting on) is \<open>Start_from_Initialized\<close>.
\<close>

definition Start :: "'w BaseService \<Rightarrow> 'w \<Rightarrow> 'w BaseService \<times> 'w \<times> error option" where
  "Start bs w =
     (if State bs = StateUninitialized then
        (case Init bs w of
           (bs1, w1, Some err) \<Rightarrow>
             (bs1, w1, Some (Errorf ''failed to initialize service: %w'' [ArgErr (Some err)]))
         | (bs1, w1, None) \<Rightarrow> Start_from_Initialized bs1 w1)
      else Start_from_Initialized bs w)"

definition Stop :: "'w BaseService \<Rightarrow> 'w \<Rightarrow> 'w BaseService \<times> 'w \<times> error option" where
  "Stop bs w =
     (case TransitionTo (stateMachine bs) StateStopping None of
        (sm1, Some err) \<Rightarrow> (bs\<lparr>stateMachine := sm1\<rparr>, w, Some err)
      | (sm1, None) \<Rightarrow>
          (case stopFunc bs of
             None \<Rightarrow>
               (case TransitionTo sm1 StateStopped None of
                  (sm2, r) \<Rightarrow> (bs\<lparr>stateMachine := sm2\<rparr>, w, r))
           | Some f \<Rightarrow>
               (case f w of
                  (Some err, w1) \<Rightarrow>
                    (bs\<lparr>stateMachine := fst (TransitionTo sm1 StateError None)\<rparr>, w1, Some err)
                | (None, w1) \<Rightarrow>
                    (case TransitionTo sm1 StateStopped None of
                       (sm2, r) \<Rightarrow> (bs\<lparr>stateMachine := sm2\<rparr>, w1, r)))))"

definition Update :: "'w BaseService \<Rightarrow> 'w \<Rightarrow> 'w BaseService \<times> 'w \<times> error option" where
  "Update bs w =
     (case updateFunc bs of
        Some f \<Rightarrow> (case f w of (r, w1) \<Rightarrow> (bs, w1, r))
      | None \<Rightarrow> (bs, w, None))"

definition HealthCheck :: "'w BaseService \<Rightarrow> error option" where
  "HealthCheck bs =
     (if State bs \<noteq> StateRunning
      then Some (ServiceError ErrInvalidState ''service is not running'' None)
      else None)"

subsection \<open>StartWithRetry\<close>

text \<open>
  \<^verbatim>\<open>time.Duration\<close> is an \<^verbatim>\<open>int64\<close>: \<^verbatim>\<open>delay*2\<close> wraps, and the builtin \<^verbatim>\<open>min\<close> compares
  signed values. \<^verbatim>\<open>MaxAttempts\<close> is an \<^verbatim>\<open>int\<close>; the counter never passes it, so it cannot
  overflow.
\<close>

type_synonym Duration = "64 word"

definition min_Duration :: "Duration \<Rightarrow> Duration \<Rightarrow> Duration" where
  "min_Duration a b = (if sint a \<le> sint b then a else b)"

record RetryOptions =
  MaxAttempts :: int
  Delay :: Duration
  MaxDelay :: Duration

text \<open>
  What a call of \<^verbatim>\<open>StartWithRetry\<close> leaves: the service, the world, the returned error,
  and two traces of what it did on the way: the durations handed to \<^verbatim>\<open>time.After\<close>, and the
  errors \<^verbatim>\<open>Start\<close> returned, both in order.
\<close>

record 'w retry_result =
  rr_service :: "'w BaseService"
  rr_world :: 'w
  rr_error :: "error option"
  rr_waits :: "Duration list"
  rr_start_errors :: "error list"

text \<open>
  The loop of \<^verbatim>\<open>StartWithRetry\<close>, from its head, with the local variables \<^verbatim>\<open>lastErr\<close>,
  \<^verbatim>\<open>attempt\<close> and \<^verbatim>\<open>delay\<close>. The \<^verbatim>\<open>select\<close> after the \<open>k\<close>-th failed attempt takes
  the branch \<open>sel k\<close> says: \<open>Some e\<close> when the context is done first (\<^verbatim>\<open>ctx.Err()\<close> is
  \<open>e\<close>), \<open>None\<close> when the timer fires first.
\<close>

function retry_loop ::
  "RetryOptions \<Rightarrow> (int \<Rightarrow> error option) \<Rightarrow> error option \<Rightarrow> int \<Rightarrow> Duration \<Rightarrow>
   'w BaseService \<Rightarrow> 'w \<Rightarrow> Duration list \<Rightarrow> error list \<Rightarrow> 'w retry_result" where
  "retry_loop opts sel lastErr attempt delay bs w waits errs =
     (if attempt < MaxAttempts opts then
        (case Start bs w of
           (bs1, w1, Some err) \<Rightarrow>
             (if attempt + 1 \<ge> MaxAttempts opts then
                \<lparr>rr_service = bs1, rr_world = w1,
                 rr_error = Some (Errorf ''service start failed after %d attempts: %w''
                                    [ArgInt (attempt + 1), ArgErr (Some err)]),
                 rr_waits = waits, rr_start_errors = errs @ [err]\<rparr>
              else
                (case sel (attempt + 1) of
                   Some cerr \<Rightarrow>
                     \<lparr>rr_service = bs1, rr_world = w1, rr_error = Some cerr,
                      rr_waits = waits @ [delay], rr_start_errors = errs @ [err]\<rparr>
                 | None \<Rightarrow>
                     retry_loop opts sel (Some err) (attempt + 1)
                       (min_Duration (delay * 2) (MaxDelay opts)) bs1 w1
                       (waits @ [delay]) (errs @ [err])))
         | (bs1, w1, None) \<Rightarrow>
             \<lparr>rr_service = bs1, rr_world = w1, rr_error = None,
              rr_waits = waits, rr_start_errors = errs\<rparr>)
      else
        \<lparr>rr_service = bs, rr_world = w,
         rr_error = Some (Errorf ''service start failed after %d attempts: %w''
                            [ArgInt attempt, ArgErr lastErr]),
         rr_waits = waits, rr_start_errors = errs\<rparr>)"
  by pat_completeness auto
termination
  by (relation "measure (\<lambda>(opts, sel, lastErr, attempt, delay, bs, w, waits, errs).
                  nat (MaxAttempts opts - attempt))") auto

definition StartWithRetry ::
  "'w BaseService \<Rightarrow> RetryOptions \<Rightarrow> (int \<Rightarrow> error option) \<Rightarrow> 'w \<Rightarrow> 'w retry_result" where
  "StartWithRetry bs opts sel w = retry_loop opts sel None 0 (Delay opts) bs w [] []"

text \<open>
  The delay variable of the loop when its \<open>k\<close>-th \<^verbatim>\<open>time.After\<close> is reached: it starts
  as \<^verbatim>\<open>opts.Delay\<close> and each completed wait replaces it by \<^verbatim>\<open>min(delay*2, opts.MaxDelay)\<close>.
\<close>

fun retry_delay :: "RetryOptions \<Rightarrow> nat \<Rightarrow> Duration" where
  "retry_delay opts 0 = Delay opts"
| "retry_delay opts (Suc k) = min_Duration (retry_delay opts k * 2) (MaxDelay opts)"

text \<open>
  The wait as the specification words it, \<^verbatim>\<open>min(delay * 2^attempt, maxDelay)\<close>, over the
  unbounded integers, with the attempts counted from 0.
\<close>

definition spec_delay :: "RetryOptions \<Rightarrow> nat \<Rightarrow> int" where
  "spec_delay opts k = min (sint (Delay opts) * 2 ^ k) (sint (MaxDelay opts))"

text \<open>
  The calls of \<^verbatim>\<open>Start\<close> of a run in which each call finds the service and the world as
  the call before it left them: \<open>before_attempt bs w k\<close> is the service and the world
  before the call number \<open>k\<close> (the first is number 0), \<open>start_attempt bs w k\<close> is what that call
  leaves and returns, and \<open>start_failures bs w n\<close> are the errors of the calls before number
  \<open>n\<close>, in order.
\<close>

fun before_attempt :: "'w BaseService \<Rightarrow> 'w \<Rightarrow> nat \<Rightarrow> 'w BaseService \<times> 'w" where
  "before_attempt bs w 0 = (bs, w)"
| "before_attempt bs w (Suc k) =
     (case before_attempt bs w k of
        (b, v) \<Rightarrow> (case Start b v of (b1, v1, r) \<Rightarrow> (b1, v1)))"

definition start_attempt :: "'w BaseService \<Rightarrow> 'w \<Rightarrow> nat \<Rightarrow> 'w BaseService \<times> 'w \<times> error option" where
  "start_attempt bs w k = (case before_attempt bs w k of (b, v) \<Rightarrow> Start b v)"

definition start_failures :: "'w BaseService \<Rightarrow> 'w \<Rightarrow> nat \<Rightarrow> error list" where
  "start_failures bs w n = List.map_filter (\<lambda>k. snd (snd (start_attempt bs w k))) [0..<n]"

text \<open>
  Each of the calls before number \<open>n\<close> failed, was not the last attempt the options
  allow, and the wait after it ran to its end (the context was not done first).
\<close>

definition retried ::
  "'w BaseService \<Rightarrow> RetryOptions \<Rightarrow> (int \<Rightarrow> error option) \<Rightarrow> 'w \<Rightarrow> nat \<Rightarrow> bool" where
  "retried bs opts sel w n \<longleftrightarrow>
     (\<forall>k<n. snd (snd (start_attempt bs w k)) \<noteq> None \<and> int k + 1 < MaxAttempts opts \<and>
            sel (int k + 1) = None)"

text \<open>
  The error an error wraps: the \<^verbatim>\<open>Err\<close> field of a \<^verbatim>\<open>ServiceError\<close>, the operand of
  \<^verbatim>\<open>%w\<close> of an error made by \<^verbatim>\<open>fmt.Errorf\<close>.
\<close>

definition cause :: "error \<Rightarrow> error option" where
  "cause e =
     (case e of
        ServiceError c m inner \<Rightarrow> inner
      | Errorf f args \<Rightarrow>
          (case filter (\<lambda>a. case a of ArgErr _ \<Rightarrow> True | _ \<Rightarrow> False) args of
             ArgErr inner # _ \<Rightarrow> inner
           | _ \<Rightarrow> None)
      | _ \<Rightarrow> None)"

text \<open>
  A service for the examples: no dependencies, default priority, and a start hook that
  always fails with the error \<^verbatim>\<open>errors.New("boom")\<close>. Its world is trivial.
\<close>

definition boom_hook :: "unit hook" where
  "boom_hook = (\<lambda>w. (Some (ErrorsNew ''boom''), w))"

definition boom_service :: "unit BaseService" where
  "boom_service = SetStartFunc (NewBaseService ''db'' [] []) (Some boom_hook)"

text \<open>Retry options for the examples (durations in nanoseconds), and the service above after its first failed start.\<close>

definition capped_first :: RetryOptions where
  "capped_first = \<lparr>MaxAttempts = 3, Delay = 2000000000, MaxDelay = 1000000000\<rparr>"

definition doubling :: RetryOptions where
  "doubling = \<lparr>MaxAttempts = 3, Delay = 1000000000, MaxDelay = 3000000000\<rparr>"

definition boom_failed :: "unit BaseService" where
  "boom_failed = fst (Start boom_service ())"

text \<open>
  A context that is cancelled during the wait after the second failed attempt, and a
  service without hooks.
\<close>

definition cancel_second :: "int \<Rightarrow> error option" where
  "cancel_second k = (if k = 2 then Some Canceled else None)"

definition plain_service :: "unit BaseService" where
  "plain_service = NewBaseService ''cache'' [] []"

section \<open>The dependency graph\<close>

text \<open>
  \<^verbatim>\<open>nodes\<close> is a Go map from names to nodes: a finite map. A node is stored as the caller
  built it and never written again.
\<close>

record ServiceNode =
  Name :: string
  Priority :: ServicePriority
  Deps :: "string list"

record DependencyGraph =
  nodes :: "(string, ServiceNode) fmap"

text \<open>
  How a call can fail: it returns an error, or it panics on a nil pointer
  (\<^verbatim>\<open>node.Deps\<close> where \<^verbatim>\<open>node\<close> is the nil that a failed map lookup gives).
\<close>

datatype failure = Failed error | NilDereference

subsection \<open>AddNode and its cycle check\<close>

text \<open>
  The closure \<^verbatim>\<open>check\<close> of \<^verbatim>\<open>checkCyclicDependency\<close> with its captured map
  \<^verbatim>\<open>visited\<close> (a \<^verbatim>\<open>map[string]bool\<close>: a missing key reads false) passed in and out;
  \<open>check_each\<close> is its \<^verbatim>\<open>for _, dep := range node.Deps\<close> loop, which is also the loop of
  \<^verbatim>\<open>checkCyclicDependency\<close> itself. \<open>Inl\<close> is the error returned, which ends the walk.
\<close>

function check :: "DependencyGraph \<Rightarrow> string \<Rightarrow> string \<Rightarrow> (string \<Rightarrow> bool) \<Rightarrow> error + (string \<Rightarrow> bool)"
  and check_each :: "DependencyGraph \<Rightarrow> string \<Rightarrow> string list \<Rightarrow> (string \<Rightarrow> bool) \<Rightarrow> error + (string \<Rightarrow> bool)"
where
  "check dg service current visited =
     (if current = service then
        Inl (ServiceError ErrDependencyFailed ''cyclic dependency detected'' None)
      else if visited current then Inr visited
      else
        (case fmlookup (nodes dg) current of
           Some node \<Rightarrow> check_each dg service (Deps node) (visited(current := True))
         | None \<Rightarrow> Inr (visited(current := True))))"
| "check_each dg service [] visited = Inr visited"
| "check_each dg service (dep # rest) visited =
     (case check dg service dep visited of
        Inl err \<Rightarrow> Inl err
      | Inr visited1 \<Rightarrow> check_each dg service rest visited1)"
  by pat_completeness auto

text \<open>The walk only adds marks; with that the recursion is seen to end.\<close>

lemma check_mono_partial:
  "check_check_each_dom (Inl (dg, service, current, visited)) \<Longrightarrow>
     check dg service current visited = Inr v' \<Longrightarrow> visited x \<Longrightarrow> v' x"
  "check_check_each_dom (Inr (dg, service, ds, visited)) \<Longrightarrow>
     check_each dg service ds visited = Inr v' \<Longrightarrow> visited x \<Longrightarrow> v' x"
proof (induction dg service current visited and dg service ds visited arbitrary: v' and v' rule: check_check_each.pinduct)
  case (1 dg service current visited)
  show ?case
  proof (cases "visited current")
    case True
    with 1(3,4) show ?thesis by (simp add: check.psimps[OF 1(1)] split: if_splits)
  next
    case False
    from 1(3) have ne: "current \<noteq> service"
      by (simp add: check.psimps[OF 1(1)] split: if_splits)
    show ?thesis
    proof (cases "fmlookup (nodes dg) current")
      case None
      with 1(3,4) False ne show ?thesis by (auto simp: check.psimps[OF 1(1)])
    next
      case (Some node)
      with 1(3) False ne have "check_each dg service (Deps node) (visited(current := True)) = Inr v'"
        by (simp add: check.psimps[OF 1(1)])
      moreover have "(visited(current := True)) x" using 1(4) by simp
      ultimately show ?thesis using 1(2)[OF ne False Some] by blast
    qed
  qed
next
  case (2 dg service visited)
  then show ?case by (simp add: check_each.psimps(1))
next
  case (3 dg service dep rest visited)
  from 3(4) obtain v1 where a: "check dg service dep visited = Inr v1"
    and b: "check_each dg service rest v1 = Inr v'"
    by (simp add: check_each.psimps(2)[OF 3(1)] split: sum.splits)
  from 3(2)[OF a 3(5)] have "v1 x" .
  from 3(3)[OF a b this] show ?case .
qed

definition unvisited :: "DependencyGraph \<Rightarrow> (string \<Rightarrow> bool) \<Rightarrow> nat" where
  "unvisited dg visited = card {n \<in> fmdom' (nodes dg). \<not> visited n}"

lemma unvisited_mono: "(\<And>x. v x \<Longrightarrow> v' x) \<Longrightarrow> unvisited dg v' \<le> unvisited dg v"
  unfolding unvisited_def by (rule card_mono) auto

lemma unvisited_mark:
  assumes "fmlookup (nodes dg) n = Some node" and "\<not> v n"
  shows "unvisited dg (v(n := True)) < unvisited dg v"
proof -
  let ?A = "{x \<in> fmdom' (nodes dg). \<not> (v(n := True)) x}"
  let ?B = "{x \<in> fmdom' (nodes dg). \<not> v x}"
  have "n \<in> fmdom' (nodes dg)" using assms(1) by (rule fmdom'I)
  then have "n \<in> ?B" and "n \<notin> ?A" using assms(2) by simp_all
  moreover have "?A \<subseteq> ?B" by (simp add: subset_iff)
  ultimately have "?A \<subset> ?B" by blast
  moreover have "finite ?B" by simp
  ultimately show ?thesis unfolding unvisited_def by (rule psubset_card_mono[rotated])
qed

termination check
proof (relation "(\<lambda>a. case a of Inl (dg, s, c, v) \<Rightarrow> unvisited dg v | Inr (dg, s, ds, v) \<Rightarrow> unvisited dg v)
          <*mlex*> measure (\<lambda>a. case a of Inl _ \<Rightarrow> 0 | Inr (dg, s, ds, v) \<Rightarrow> Suc (length ds))", goal_cases)
  case 1
  then show ?case by (rule wf_mlex) simp
next
  case (2 dg service current visited node)
  then show ?case by (intro mlex_less) (simp add: unvisited_mark)
next
  case (3 dg service dep rest visited)
  then show ?case by (intro mlex_leq) simp_all
next
  case (4 dg service dep rest visited v1)
  have "unvisited dg v1 \<le> unvisited dg visited"
    using check_mono_partial(1)[OF 4(2) 4(1)] by (rule unvisited_mono)
  then show ?case by (intro mlex_leq) simp_all
qed

definition checkCyclicDependency :: "DependencyGraph \<Rightarrow> string \<Rightarrow> string list \<Rightarrow> error option" where
  "checkCyclicDependency dg service ds =
     (case check_each dg service ds (\<lambda>_. False) of
        Inl err \<Rightarrow> Some err
      | Inr _ \<Rightarrow> None)"

text \<open>\<^verbatim>\<open>AddNode\<close>: the graph it leaves and the error it returns.\<close>

definition AddNode :: "DependencyGraph \<Rightarrow> ServiceNode \<Rightarrow> DependencyGraph \<times> error option" where
  "AddNode dg node =
     (case fmlookup (nodes dg) (Name node) of
        Some _ \<Rightarrow>
          (dg, Some (ServiceError ErrServiceAlreadyExists
                      (''service '' @ Name node @ '' already exists in dependency graph'') None))
      | None \<Rightarrow>
          (case checkCyclicDependency dg (Name node) (Deps node) of
             Some err \<Rightarrow> (dg, Some err)
           | None \<Rightarrow> (dg\<lparr>nodes := fmupd (Name node) node (nodes dg)\<rparr>, None)))"

definition NewDependencyGraph :: DependencyGraph where
  "NewDependencyGraph = \<lparr>nodes = fmempty\<rparr>"

definition GetDependencies :: "DependencyGraph \<Rightarrow> string \<Rightarrow> string list option" where
  "GetDependencies dg nm = map_option Deps (fmlookup (nodes dg) nm)"

definition GetNode :: "DependencyGraph \<Rightarrow> string \<Rightarrow> ServiceNode option" where
  "GetNode dg nm = fmlookup (nodes dg) nm"

subsection \<open>GetStartOrder\<close>

text \<open>
  The three variables the closure \<^verbatim>\<open>visit\<close> captures. \<open>visit_each\<close> is its loop over
  \<^verbatim>\<open>node.Deps\<close>. A name that is not a key of \<^verbatim>\<open>nodes\<close> makes \<^verbatim>\<open>dg.nodes[name]\<close> nil,
  and \<^verbatim>\<open>node.Deps\<close> panics.
\<close>

record walk =
  visited :: "string \<Rightarrow> bool"
  temp :: "string \<Rightarrow> bool"
  order :: "ServiceNode list"

function visit :: "DependencyGraph \<Rightarrow> string \<Rightarrow> walk \<Rightarrow> failure + walk"
  and visit_each :: "DependencyGraph \<Rightarrow> string list \<Rightarrow> walk \<Rightarrow> failure + walk"
where
  "visit dg nm st =
     (if temp st nm then
        Inl (Failed (ServiceError ErrDependencyFailed
               (''cyclic dependency detected involving '' @ nm) None))
      else if visited st nm then Inr st
      else
        (case fmlookup (nodes dg) nm of
           None \<Rightarrow> Inl NilDereference
         | Some node \<Rightarrow>
             (case visit_each dg (Deps node) (st\<lparr>temp := (temp st)(nm := True)\<rparr>) of
                Inl e \<Rightarrow> Inl e
              | Inr st1 \<Rightarrow>
                  Inr (st1\<lparr>temp := (temp st1)(nm := False),
                           visited := (visited st1)(nm := True),
                           order := order st1 @ [node]\<rparr>))))"
| "visit_each dg [] st = Inr st"
| "visit_each dg (dep # rest) st =
     (case visit dg dep st of
        Inl e \<Rightarrow> Inl e
      | Inr st1 \<Rightarrow> visit_each dg rest st1)"
  by pat_completeness auto

lemma visit_temp_partial:
  "visit_visit_each_dom (Inl (dg, nm, st)) \<Longrightarrow> visit dg nm st = Inr st' \<Longrightarrow> temp st' = temp st"
  "visit_visit_each_dom (Inr (dg, ds, st)) \<Longrightarrow> visit_each dg ds st = Inr st' \<Longrightarrow> temp st' = temp st"
proof (induction dg nm st and dg ds st arbitrary: st' and st' rule: visit_visit_each.pinduct)
  case (1 dg nm st)
  from 1(3) have nt: "\<not> temp st nm"
    by (simp add: visit.psimps[OF 1(1)] split: if_splits)
  show ?case
  proof (cases "visited st nm")
    case True
    with 1(3) nt show ?thesis by (simp add: visit.psimps[OF 1(1)])
  next
    case False
    with 1(3) nt obtain node st1 where
      n: "fmlookup (nodes dg) nm = Some node" and
      e: "visit_each dg (Deps node) (st\<lparr>temp := (temp st)(nm := True)\<rparr>) = Inr st1" and
      r: "st' = st1\<lparr>temp := (temp st1)(nm := False),
                     visited := (visited st1)(nm := True), order := order st1 @ [node]\<rparr>"
      by (auto simp: visit.psimps[OF 1(1)] split: option.splits sum.splits)
    have "temp st1 = temp (st\<lparr>temp := (temp st)(nm := True)\<rparr>)"
      by (rule 1(2)[OF nt False n e])
    then have "temp st1 x = ((temp st)(nm := True)) x" for x by simp
    with r nt show ?thesis by (auto simp: fun_eq_iff)
  qed
next
  case (2 dg st)
  then show ?case by (simp add: visit_each.psimps(1))
next
  case (3 dg dep rest st)
  from 3(4) obtain st1 where a: "visit dg dep st = Inr st1"
    and b: "visit_each dg rest st1 = Inr st'"
    by (simp add: visit_each.psimps(2)[OF 3(1)] split: sum.splits)
  from 3(2)[OF a] 3(3)[OF a b] show ?case by simp
qed

termination visit
proof (relation "(\<lambda>a. case a of Inl (dg, n, st) \<Rightarrow> unvisited dg (temp st) | Inr (dg, ds, st) \<Rightarrow> unvisited dg (temp st))
          <*mlex*> measure (\<lambda>a. case a of Inl _ \<Rightarrow> 0 | Inr (dg, ds, st) \<Rightarrow> Suc (length ds))", goal_cases)
  case 1
  then show ?case by (rule wf_mlex) simp
next
  case (2 dg nm st node)
  then show ?case by (intro mlex_less) (simp add: unvisited_mark)
next
  case (3 dg dep rest st)
  then show ?case by (intro mlex_leq) simp_all
next
  case (4 dg dep rest st st1)
  have "temp st1 = temp st" using visit_temp_partial(1)[OF 4(2) 4(1)] .
  then show ?case by (intro mlex_leq) simp_all
qed

text \<open>
  The loop \<^verbatim>\<open>for name := range dg.nodes\<close>. Go fixes no order for it: \<open>ks\<close> is the order
  this run takes, some arrangement of the keys of the map.
\<close>

fun visit_all :: "DependencyGraph \<Rightarrow> string list \<Rightarrow> walk \<Rightarrow> failure + walk" where
  "visit_all dg [] st = Inr st"
| "visit_all dg (nm # rest) st =
     (if \<not> visited st nm then
        (case visit dg nm st of
           Inl e \<Rightarrow> Inl e
         | Inr st1 \<Rightarrow> visit_all dg rest st1)
      else visit_all dg rest st)"

text \<open>
  The level of the node at position \<open>i\<close> of the post-order: the two inner loops, which
  leave the largest position \<open>j < i\<close> of a dependency when that is above 0, and 0 otherwise.
\<close>

definition level_of :: "ServiceNode list \<Rightarrow> nat \<Rightarrow> ServiceNode \<Rightarrow> nat" where
  "level_of ord i node =
     fold (\<lambda>dep level.
             fold (\<lambda>j level. if Name (ord ! j) = dep \<and> j > level then j else level) [0..<i] level)
          (Deps node) 0"

text \<open>The map \<^verbatim>\<open>levels\<close> (a missing key reads as the empty slice) and \<^verbatim>\<open>maxLevel\<close>.\<close>

definition group_levels :: "ServiceNode list \<Rightarrow> (nat \<Rightarrow> ServiceNode list) \<times> nat" where
  "group_levels ord =
     fold (\<lambda>i (levels, maxLevel).
             let node = ord ! i; level = level_of ord i node
             in (levels(level := levels level @ [node]),
                 if level > maxLevel then level else maxLevel))
          [0..<length ord] (\<lambda>_. [], 0)"

text \<open>
  The last loop. \<^verbatim>\<open>sort.Slice\<close> orders a level by \<^verbatim>\<open>Priority\<close>; it promises no order
  between equal priorities, and \<open>sort_key\<close> here keeps them as they were (what Go's
  insertion sort does on the slices of up to 12 elements).
\<close>

definition by_level :: "ServiceNode list \<Rightarrow> string list" where
  "by_level ord =
     (case group_levels ord of
        (levels, maxLevel) \<Rightarrow>
          concat (map (\<lambda>level. map Name (sort_key Priority (levels level))) [0..<Suc maxLevel]))"

definition GetStartOrder :: "DependencyGraph \<Rightarrow> string list \<Rightarrow> failure + string list" where
  "GetStartOrder dg ks =
     (case visit_all dg ks \<lparr>visited = (\<lambda>_. False), temp = (\<lambda>_. False), order = []\<rparr> of
        Inl e \<Rightarrow> Inl e
      | Inr st \<Rightarrow> Inr (by_level (order st)))"


subsection \<open>Notions for stating the properties of the graph\<close>

text \<open>
  The dependency edges of a graph: \<open>(a, b)\<close> when \<open>a\<close> is a node and declares \<open>b\<close>. A
  dependency chain from \<open>a\<close> to \<open>b\<close> is a path: \<open>(a, b) \<in> (edges dg)\<^sup>*\<close>.
\<close>

definition edges :: "DependencyGraph \<Rightarrow> (string \<times> string) set" where
  "edges dg = {(a, b). \<exists>node. fmlookup (nodes dg) a = Some node \<and> b \<in> set (Deps node)}"

definition cyclic_error :: error where
  "cyclic_error = ServiceError ErrDependencyFailed ''cyclic dependency detected'' None"

text \<open>
  What the cycle check has done between two values of its \<^verbatim>\<open>visited\<close> map: it only added
  marks, it did not mark the service being added, and every node it marked has all its
  dependencies marked.
\<close>

definition walked :: "DependencyGraph \<Rightarrow> string \<Rightarrow> (string \<Rightarrow> bool) \<Rightarrow> (string \<Rightarrow> bool) \<Rightarrow> bool" where
  "walked dg s v v' \<longleftrightarrow>
     (\<forall>x. v x \<longrightarrow> v' x) \<and> (v' s \<longrightarrow> v s) \<and>
     (\<forall>n node d. v' n \<and> \<not> v n \<and> fmlookup (nodes dg) n = Some node \<and> d \<in> set (Deps node) \<longrightarrow> v' d)"

text \<open>A set of marked names in which every name is a node with all its dependencies marked.\<close>

definition closed :: "DependencyGraph \<Rightarrow> (string \<Rightarrow> bool) \<Rightarrow> bool" where
  "closed dg vis \<longleftrightarrow>
     (\<forall>n. vis n \<longrightarrow> (\<exists>node. fmlookup (nodes dg) n = Some node \<and> (\<forall>d\<in>set (Deps node). vis d)))"

text \<open>
  The graph after a sequence of calls of \<^verbatim>\<open>AddNode\<close>, whatever each returned. The map is
  written by \<^verbatim>\<open>AddNode\<close> only, so the graphs a program can hold are those of the form
  \<open>add_nodes NewDependencyGraph ns\<close>.
\<close>

fun add_nodes :: "DependencyGraph \<Rightarrow> ServiceNode list \<Rightarrow> DependencyGraph" where
  "add_nodes dg [] = dg"
| "add_nodes dg (n # ns) = add_nodes (fst (AddNode dg n)) ns"

text \<open>Nodes and graphs for the examples.\<close>

definition node_database :: ServiceNode where
  "node_database = \<lparr>Name = ''database'', Priority = PriorityNormal, Deps = []\<rparr>"

definition node_api :: ServiceNode where
  "node_api = \<lparr>Name = ''api'', Priority = PriorityHigh, Deps = [''database'']\<rparr>"

definition graph_database_api :: DependencyGraph where
  "graph_database_api = add_nodes NewDependencyGraph [node_database, node_api]"

definition graph_api_alone :: DependencyGraph where
  "graph_api_alone = add_nodes NewDependencyGraph [node_api]"

definition node_A :: ServiceNode where
  "node_A = \<lparr>Name = ''A'', Priority = PriorityNormal, Deps = [''B'']\<rparr>"

definition node_B :: ServiceNode where
  "node_B = \<lparr>Name = ''B'', Priority = PriorityNormal, Deps = [''A'']\<rparr>"

definition node_B_plain :: ServiceNode where
  "node_B_plain = \<lparr>Name = ''B'', Priority = PriorityNormal, Deps = []\<rparr>"

definition graph_A :: DependencyGraph where
  "graph_A = add_nodes NewDependencyGraph [node_A]"

definition graph_A_B :: DependencyGraph where
  "graph_A_B = add_nodes NewDependencyGraph [node_A, node_B_plain]"

section \<open>Events and metrics\<close>

text \<open>
  \<^verbatim>\<open>EventType\<close> is a string type. An event as \<^verbatim>\<open>PublishEvent\<close> receives it: the time stamp
  and the metadata map play no part here and are left out. A listener is known by a
  number; \<^verbatim>\<open>PublishEvent\<close> starts one goroutine for each listener of the event's type and for
  each listener registered for \<^verbatim>\<open>"*"\<close>. The manager keeps what was published and what was
  handed to which listener, in the order of the calls.
\<close>

type_synonym EventType = string

definition EventInit :: EventType where "EventInit = ''Init''"
definition EventStart :: EventType where "EventStart = ''Start''"
definition EventStop :: EventType where "EventStop = ''Stop''"
definition EventRestart :: EventType where "EventRestart = ''Restart''"
definition EventError :: EventType where "EventError = ''Error''"
definition EventHealthCheck :: EventType where "EventHealthCheck = ''HealthCheck''"
definition EventStateChange :: EventType where "EventStateChange = ''StateChange''"

record ServiceEvent =
  ServiceName :: string
  EventType :: EventType
  EventState :: ServiceState
  Error :: "error option"

record EventManager =
  listeners :: "EventType \<rightharpoonup> nat list"
  published :: "ServiceEvent list"
  handed :: "(nat \<times> ServiceEvent) list"

definition NewEventManager :: EventManager where
  "NewEventManager = \<lparr>listeners = Map.empty, published = [], handed = []\<rparr>"

definition AddListener :: "EventManager \<Rightarrow> EventType \<Rightarrow> nat \<Rightarrow> EventManager" where
  "AddListener em eventType listener =
     em\<lparr>listeners := (listeners em)
           (eventType \<mapsto> (case listeners em eventType of None \<Rightarrow> [] | Some ls \<Rightarrow> ls) @ [listener])\<rparr>"

definition PublishEvent :: "EventManager \<Rightarrow> ServiceEvent \<Rightarrow> EventManager" where
  "PublishEvent em event =
     em\<lparr>published := published em @ [event],
        handed := handed em
          @ map (\<lambda>l. (l, event)) (case listeners em (EventType event) of None \<Rightarrow> [] | Some ls \<Rightarrow> ls)
          @ map (\<lambda>l. (l, event)) (case listeners em ''*'' of None \<Rightarrow> [] | Some ls \<Rightarrow> ls)\<rparr>"

text \<open>The metrics of one service, without the time stamps and the health-check counters.\<close>

record ServiceMetrics =
  RestartCount :: int
  LastError :: "error option"
  MetricsState :: ServiceState

type_synonym MetricsCollector = "(string, ServiceMetrics) fmap"

definition RegisterService :: "MetricsCollector \<Rightarrow> string \<Rightarrow> MetricsCollector" where
  "RegisterService mc serviceName =
     (case fmlookup mc serviceName of
        None \<Rightarrow> fmupd serviceName
                  \<lparr>RestartCount = 0, LastError = None, MetricsState = StateUninitialized\<rparr> mc
      | Some _ \<Rightarrow> mc)"

definition RecordStop :: "MetricsCollector \<Rightarrow> string \<Rightarrow> MetricsCollector" where
  "RecordStop mc serviceName =
     (case fmlookup mc serviceName of
        Some m \<Rightarrow> fmupd serviceName (m\<lparr>MetricsState := StateStopped\<rparr>) mc
      | None \<Rightarrow> mc)"

definition RecordError :: "MetricsCollector \<Rightarrow> string \<Rightarrow> error \<Rightarrow> MetricsCollector" where
  "RecordError mc serviceName err =
     (case fmlookup mc serviceName of
        Some m \<Rightarrow> fmupd serviceName (m\<lparr>LastError := Some err, MetricsState := StateError\<rparr>) mc
      | None \<Rightarrow> mc)"

section \<open>The service group\<close>

record ServiceGroupOptions =
  StartTimeout :: Duration
  StopTimeout :: Duration
  HealthCheckInterval :: Duration

text \<open>
  \<^verbatim>\<open>var DefaultServiceGroupOptions\<close>: an exported package variable, which a program can
  assign. This is the value its declaration gives it, \<^verbatim>\<open>time.Minute\<close> and
  \<^verbatim>\<open>time.Second * 30\<close> in nanoseconds.
\<close>

definition DefaultServiceGroupOptions :: ServiceGroupOptions where
  "DefaultServiceGroupOptions =
     \<lparr>StartTimeout = 60000000000, StopTimeout = 60000000000, HealthCheckInterval = 30000000000\<rparr>"

text \<open>
  The group. \<open>cancelled\<close> says whether \<^verbatim>\<open>sg.cancel\<close> has been called (the root context is
  done); \<open>healthLoops\<close> counts the goroutines started by \<^verbatim>\<open>go sg.healthCheckLoop()\<close>. The
  services are the default implementation; the registry holds pointers, so what a method
  does to a service is written back under its name.
\<close>

record 'w ServiceGroup =
  services :: "(string, 'w BaseService) fmap"
  depGraph :: DependencyGraph
  cancelled :: bool
  options :: ServiceGroupOptions
  isStarting :: bool
  metrics :: MetricsCollector
  events :: EventManager
  healthLoops :: nat

text \<open>
  \<^verbatim>\<open>NewServiceGroup(ctx, opts...)\<close>: \<open>opts\<close> is the variadic argument. The constructor reads
  the package variable \<^verbatim>\<open>DefaultServiceGroupOptions\<close> twice; \<open>defaults\<close> is the value the
  variable holds when the constructor is called.
\<close>

definition NewServiceGroup ::
  "ServiceGroupOptions \<Rightarrow> ServiceGroupOptions list \<Rightarrow> 'w ServiceGroup" where
  "NewServiceGroup defaults opts =
     (let options0 = defaults;
          options1 =
            (if length opts > 0 then
               (let o1 = hd opts in
                if sint (HealthCheckInterval o1) \<le> 0
                then o1\<lparr>HealthCheckInterval := HealthCheckInterval defaults\<rparr>
                else o1)
             else options0)
      in \<lparr>services = fmempty, depGraph = NewDependencyGraph, cancelled = False,
          options = options1, isStarting = False, metrics = fmempty,
          events = NewEventManager, healthLoops = 0\<rparr>)"

definition Add :: "'w ServiceGroup \<Rightarrow> 'w BaseService \<Rightarrow> 'w ServiceGroup \<times> error option" where
  "Add sg s =
     (case fmlookup (services sg) (name s) of
        Some _ \<Rightarrow>
          (sg, Some (ServiceError ErrServiceAlreadyExists
                      (''service '' @ name s @ '' already exists'') None))
      | None \<Rightarrow>
          (let sg1 = sg\<lparr>services := fmupd (name s) s (services sg)\<rparr>;
               node = \<lparr>Name = name s, Priority = priority s, Deps = deps s\<rparr>
           in case AddNode (depGraph sg1) node of
                (g, Some err) \<Rightarrow>
                  (sg1\<lparr>depGraph := g, services := fmdrop (name s) (services sg1)\<rparr>, Some err)
              | (g, None) \<Rightarrow>
                  (sg1\<lparr>depGraph := g, metrics := RegisterService (metrics sg1) (name s)\<rparr>, None)))"

definition startService ::
  "'w ServiceGroup \<Rightarrow> string \<Rightarrow> 'w \<Rightarrow> 'w ServiceGroup \<times> 'w \<times> error option" where
  "startService sg nm w =
     (case fmlookup (services sg) nm of
        None \<Rightarrow>
          (sg, w, Some (ServiceError ErrServiceNotFound (''service '' @ nm @ '' not found'') None))
      | Some s \<Rightarrow>
          (case Start s w of
             (s1, w1, Some err) \<Rightarrow>
               (sg\<lparr>services := fmupd nm s1 (services sg)\<rparr>, w1,
                Some (ServiceError ErrStartupFailed (''failed to start service '' @ nm) (Some err)))
           | (s1, w1, None) \<Rightarrow> (sg\<lparr>services := fmupd nm s1 (services sg)\<rparr>, w1, None)))"

definition stopService ::
  "'w ServiceGroup \<Rightarrow> string \<Rightarrow> 'w \<Rightarrow> 'w ServiceGroup \<times> 'w \<times> error option" where
  "stopService sg nm w =
     (case fmlookup (services sg) nm of
        None \<Rightarrow>
          (sg, w, Some (ServiceError ErrServiceNotFound (''service '' @ nm @ '' not found'') None))
      | Some s \<Rightarrow>
          (let sg1 = sg\<lparr>metrics := RecordStop (metrics sg) nm\<rparr> in
           case Stop s w of
             (s1, w1, Some err) \<Rightarrow>
               (sg1\<lparr>services := fmupd nm s1 (services sg1),
                    metrics := RecordError (metrics sg1) nm err\<rparr>, w1,
                Some (Errorf ''failed to stop service %s: %w'' [ArgStr nm, ArgErr (Some err)]))
           | (s1, w1, None) \<Rightarrow> (sg1\<lparr>services := fmupd nm s1 (services sg1)\<rparr>, w1, None)))"

text \<open>What a call of a method of the group does: it returns (an error or nil), or it panics.\<close>

datatype outcome = Returned "error option" | Panicked

text \<open>The loop of \<^verbatim>\<open>Start\<close> over the start order: the first error ends it.\<close>

fun start_each ::
  "'w ServiceGroup \<Rightarrow> string list \<Rightarrow> 'w \<Rightarrow> 'w ServiceGroup \<times> 'w \<times> error option" where
  "start_each sg [] w = (sg, w, None)"
| "start_each sg (nm # rest) w =
     (case startService sg nm w of
        (sg1, w1, Some err) \<Rightarrow> (sg1, w1, Some err)
      | (sg1, w1, None) \<Rightarrow> start_each sg1 rest w1)"

text \<open>
  \<^verbatim>\<open>ServiceGroup.Start\<close>. \<open>ks\<close> is the order in which \<^verbatim>\<open>GetStartOrder\<close> ranges over the
  map of nodes in this call.
\<close>

definition ServiceGroup_Start ::
  "'w ServiceGroup \<Rightarrow> string list \<Rightarrow> 'w \<Rightarrow> 'w ServiceGroup \<times> 'w \<times> outcome" where
  "ServiceGroup_Start sg ks w =
     (if isStarting sg then
        (sg, w, Returned (Some (ServiceError ErrInvalidState ''services are already starting'' None)))
      else
        (let sg1 = sg\<lparr>isStarting := True\<rparr> in
         case GetStartOrder (depGraph sg1) ks of
           Inl NilDereference \<Rightarrow> (sg1, w, Panicked)
         | Inl (Failed err) \<Rightarrow> (sg1, w, Returned (Some err))
         | Inr startOrder \<Rightarrow>
             (case start_each sg1 startOrder w of
                (sg2, w2, Some err) \<Rightarrow> (sg2, w2, Returned (Some err))
              | (sg2, w2, None) \<Rightarrow>
                  (if 0 < sint (HealthCheckInterval (options sg2))
                   then (sg2\<lparr>healthLoops := Suc (healthLoops sg2)\<rparr>, w2, Returned None)
                   else (sg2, w2, Returned None)))))"

text \<open>The loop of \<^verbatim>\<open>Stop\<close>: every service is tried, the last error is kept.\<close>

fun stop_each ::
  "'w ServiceGroup \<Rightarrow> string list \<Rightarrow> 'w \<Rightarrow> error option \<Rightarrow> 'w ServiceGroup \<times> 'w \<times> error option" where
  "stop_each sg [] w stopErr = (sg, w, stopErr)"
| "stop_each sg (nm # rest) w stopErr =
     (case stopService sg nm w of
        (sg1, w1, Some err) \<Rightarrow> stop_each sg1 rest w1 (Some err)
      | (sg1, w1, None) \<Rightarrow> stop_each sg1 rest w1 stopErr)"

definition ServiceGroup_Stop ::
  "'w ServiceGroup \<Rightarrow> string list \<Rightarrow> 'w \<Rightarrow> 'w ServiceGroup \<times> 'w \<times> outcome" where
  "ServiceGroup_Stop sg ks w =
     (let sg1 = sg\<lparr>cancelled := True\<rparr> in
      case GetStartOrder (depGraph sg1) ks of
        Inl NilDereference \<Rightarrow> (sg1, w, Panicked)
      | Inl (Failed err) \<Rightarrow> (sg1, w, Returned (Some err))
      | Inr startOrder \<Rightarrow>
          (case stop_each sg1 (rev startOrder) w None of
             (sg2, w2, stopErr) \<Rightarrow> (sg2, w2, Returned stopErr)))"

subsection \<open>GracefulStop\<close>

text \<open>
  \<^verbatim>\<open>GracefulStop\<close> starts one goroutine for each name of the stop order. Each works on its
  own service and its own metrics entry; the model runs them one after the other, in an
  order the scheduler picks: \<open>arrange picks xs\<close> takes, for each number of \<open>picks\<close>, the
  pending task at that position (modulo the number of pending tasks), and the rest in the
  order they were started. Every \<open>picks\<close> gives an arrangement of all of \<open>xs\<close>.
\<close>

function arrange :: "nat list \<Rightarrow> 'a list \<Rightarrow> 'a list" where
  "arrange picks [] = []"
| "arrange [] (x # xs) = x # xs"
| "arrange (p # picks) (x # xs) =
     (let i = p mod length (x # xs)
      in (x # xs) ! i # arrange picks (take i (x # xs) @ drop (Suc i) (x # xs)))"
  by pat_completeness auto
termination
  by (relation "measure (\<lambda>(picks, xs). length xs)") auto

text \<open>
  One goroutine of \<^verbatim>\<open>GracefulStop\<close>: \<^verbatim>\<open>stopService\<close>, and the event when it failed. The
  event's \<^verbatim>\<open>State\<close> is not set: it is the zero value.
\<close>

definition stop_task ::
  "'w ServiceGroup \<Rightarrow> string \<Rightarrow> 'w \<Rightarrow> 'w ServiceGroup \<times> 'w \<times> error option" where
  "stop_task sg serviceName w =
     (case stopService sg serviceName w of
        (sg1, w1, Some err) \<Rightarrow>
          (sg1\<lparr>events := PublishEvent (events sg1)
                  \<lparr>ServiceName = serviceName, EventType = EventStop,
                   EventState = StateUninitialized, Error = Some err\<rparr>\<rparr>, w1, Some err)
      | (sg1, w1, None) \<Rightarrow> (sg1, w1, None))"

text \<open>The goroutines in the order they run, with what \<^verbatim>\<open>stopService\<close> returned in each.\<close>

fun stop_tasks ::
  "'w ServiceGroup \<Rightarrow> string list \<Rightarrow> 'w \<Rightarrow> 'w ServiceGroup \<times> 'w \<times> (string \<times> error option) list" where
  "stop_tasks sg [] w = (sg, w, [])"
| "stop_tasks sg (nm # rest) w =
     (case stop_task sg nm w of
        (sg1, w1, r) \<Rightarrow>
          (case stop_tasks sg1 rest w1 of
             (sg2, w2, rs) \<Rightarrow> (sg2, w2, (nm, r) # rs)))"

record 'w graceful_result =
  gr_group :: "'w ServiceGroup"
  gr_world :: 'w
  gr_outcome :: outcome
  gr_tasks :: "(string \<times> error option) list"

text \<open>
  \<^verbatim>\<open>GracefulStop(ctx)\<close>. \<open>ks\<close> is the range order of \<^verbatim>\<open>GetStartOrder\<close>, \<open>picks\<close> the
  scheduler's choices, and \<open>deadline\<close> the branch the final \<^verbatim>\<open>select\<close> takes: \<open>None\<close>
  when all goroutines have finished first (\<^verbatim>\<open>done\<close> is closed), \<open>Some (k, e)\<close> when
  \<^verbatim>\<open>ctx.Done()\<close> comes first, after \<open>k\<close> goroutines have run, with \<^verbatim>\<open>ctx.Err()\<close> being
  \<open>e\<close>. The result is the state when the call returns: what the goroutines still
  running then do later is not in it.
\<close>

definition GracefulStop ::
  "'w ServiceGroup \<Rightarrow> string list \<Rightarrow> nat list \<Rightarrow> (nat \<times> error) option \<Rightarrow> 'w \<Rightarrow> 'w graceful_result" where
  "GracefulStop sg ks picks deadline w =
     (let sg1 = sg\<lparr>cancelled := True\<rparr> in
      case GetStartOrder (depGraph sg1) ks of
        Inl NilDereference \<Rightarrow>
          \<lparr>gr_group = sg1, gr_world = w, gr_outcome = Panicked, gr_tasks = []\<rparr>
      | Inl (Failed err) \<Rightarrow>
          \<lparr>gr_group = sg1, gr_world = w,
           gr_outcome = Returned (Some (ServiceError ErrShutdownFailed
                                          ''failed to determine service stop order'' (Some err))),
           gr_tasks = []\<rparr>
      | Inr startOrder \<Rightarrow>
          (let stopOrder = rev startOrder; running = arrange picks stopOrder in
           case deadline of
             Some (k, cerr) \<Rightarrow>
               (case stop_tasks sg1 (take k running) w of
                  (sg2, w2, rs) \<Rightarrow>
                    \<lparr>gr_group = sg2, gr_world = w2,
                     gr_outcome = Returned (Some (ServiceError ErrShutdownTimeout
                                                    ''timeout waiting for services to stop'' (Some cerr))),
                     gr_tasks = rs\<rparr>)
           | None \<Rightarrow>
               (case stop_tasks sg1 running w of
                  (sg2, w2, rs) \<Rightarrow>
                    \<lparr>gr_group = sg2, gr_world = w2, gr_outcome = Returned None, gr_tasks = rs\<rparr>)))"

subsection \<open>The other methods that change the group (service\_group\_utils.go)\<close>

definition UpdateService ::
  "'w ServiceGroup \<Rightarrow> string \<Rightarrow> 'w \<Rightarrow> 'w ServiceGroup \<times> 'w \<times> error option" where
  "UpdateService sg nm w =
     (case fmlookup (services sg) nm of
        None \<Rightarrow>
          (sg, w, Some (ServiceError ErrServiceNotFound (''service '' @ nm @ '' not found'') None))
      | Some s \<Rightarrow>
          (case Update s w of
             (s1, w1, r) \<Rightarrow> (sg\<lparr>services := fmupd nm s1 (services sg)\<rparr>, w1, r)))"

definition RestartService ::
  "'w ServiceGroup \<Rightarrow> string \<Rightarrow> 'w \<Rightarrow> 'w ServiceGroup \<times> 'w \<times> error option" where
  "RestartService sg nm w =
     (case fmlookup (services sg) nm of
        None \<Rightarrow>
          (sg, w, Some (ServiceError ErrServiceNotFound (''service '' @ nm @ '' not found'') None))
      | Some _ \<Rightarrow>
          (case stopService sg nm w of
             (sg1, w1, Some err) \<Rightarrow> (sg1, w1, Some err)
           | (sg1, w1, None) \<Rightarrow> startService sg1 nm w1))"

definition AddEventListener :: "'w ServiceGroup \<Rightarrow> EventType \<Rightarrow> nat \<Rightarrow> 'w ServiceGroup" where
  "AddEventListener sg eventType listener =
     sg\<lparr>events := AddListener (events sg) eventType listener\<rparr>"

text \<open>
  A call of one of the methods that change the group, with what the run decides for it,
  and a sequence of such calls on one group. A caller that recovers from a panic goes on
  with the group as the panic left it.
\<close>

datatype 'w call =
    CallAdd "'w BaseService"
  | CallStart "string list"
  | CallStop "string list"
  | CallGracefulStop "string list" "nat list" "(nat \<times> error) option"
  | CallRestartService string
  | CallUpdateService string
  | CallAddEventListener EventType nat

fun do_call :: "'w call \<Rightarrow> 'w ServiceGroup \<Rightarrow> 'w \<Rightarrow> 'w ServiceGroup \<times> 'w \<times> outcome" where
  "do_call (CallAdd s) sg w = (case Add sg s of (sg1, r) \<Rightarrow> (sg1, w, Returned r))"
| "do_call (CallStart ks) sg w = ServiceGroup_Start sg ks w"
| "do_call (CallStop ks) sg w = ServiceGroup_Stop sg ks w"
| "do_call (CallGracefulStop ks picks deadline) sg w =
     (let r = GracefulStop sg ks picks deadline w in (gr_group r, gr_world r, gr_outcome r))"
| "do_call (CallRestartService nm) sg w =
     (case RestartService sg nm w of (sg1, w1, r) \<Rightarrow> (sg1, w1, Returned r))"
| "do_call (CallUpdateService nm) sg w =
     (case UpdateService sg nm w of (sg1, w1, r) \<Rightarrow> (sg1, w1, Returned r))"
| "do_call (CallAddEventListener t l) sg w = (AddEventListener sg t l, w, Returned None)"

fun do_calls ::
  "'w call list \<Rightarrow> 'w ServiceGroup \<Rightarrow> 'w \<Rightarrow> 'w ServiceGroup \<times> 'w \<times> outcome list" where
  "do_calls [] sg w = (sg, w, [])"
| "do_calls (c # cs) sg w =
     (case do_call c sg w of
        (sg1, w1, r) \<Rightarrow>
          (case do_calls cs sg1 w1 of
             (sg2, w2, rs) \<Rightarrow> (sg2, w2, r # rs)))"

subsection \<open>Notions and examples for the properties of the group\<close>

definition already_starting :: error where
  "already_starting = ServiceError ErrInvalidState ''services are already starting'' None"

text \<open>The event a goroutine of \<^verbatim>\<open>GracefulStop\<close> publishes for the service \<open>n\<close> and the error \<open>e\<close>.\<close>

definition stop_event :: "string \<Rightarrow> error \<Rightarrow> ServiceEvent" where
  "stop_event n e =
     \<lparr>ServiceName = n, EventType = EventStop, EventState = StateUninitialized, Error = Some e\<rparr>"

text \<open>
  \<^verbatim>\<open>stopService\<close> called for the names of a list one after the other, each call on the
  group and the world the call before it left: \<open>stop_results\<close> is what each call returns,
  \<open>before_stop sg ns w i\<close> the group and the world the call number \<open>i\<close> (from 0) finds.
  \<open>stop_events\<close> are the events of the calls that returned an error.
\<close>

fun stop_results ::
  "'w ServiceGroup \<Rightarrow> string list \<Rightarrow> 'w \<Rightarrow> (string \<times> error option) list" where
  "stop_results sg [] w = []"
| "stop_results sg (nm # rest) w =
     (case stopService sg nm w of
        (sg1, w1, r) \<Rightarrow> (nm, r) # stop_results sg1 rest w1)"

fun before_stop ::
  "'w ServiceGroup \<Rightarrow> string list \<Rightarrow> 'w \<Rightarrow> nat \<Rightarrow> 'w ServiceGroup \<times> 'w" where
  "before_stop sg ns w 0 = (sg, w)"
| "before_stop sg [] w (Suc i) = (sg, w)"
| "before_stop sg (nm # rest) w (Suc i) =
     (case stopService sg nm w of (sg1, w1, r) \<Rightarrow> before_stop sg1 rest w1 i)"

definition stop_events :: "(string \<times> error option) list \<Rightarrow> ServiceEvent list" where
  "stop_events rs = List.map_filter (\<lambda>(n, r). map_option (stop_event n) r) rs"

text \<open>
  The options of the README's example: both timeouts a minute, the health-check interval
  left at its zero value.
\<close>

definition readme_options :: ServiceGroupOptions where
  "readme_options =
     \<lparr>StartTimeout = 60000000000, StopTimeout = 60000000000, HealthCheckInterval = 0\<rparr>"

text \<open>
  The package variable after a program has assigned 0 to its \<^verbatim>\<open>HealthCheckInterval\<close>
  (\<^verbatim>\<open>service.DefaultServiceGroupOptions.HealthCheckInterval = 0\<close>).
\<close>

definition no_polling_defaults :: ServiceGroupOptions where
  "no_polling_defaults = DefaultServiceGroupOptions\<lparr>HealthCheckInterval := 0\<rparr>"

text \<open>
  Three services without dependencies, the second with a stop hook that fails, added to a
  new group and started; and a group with the service whose start hook fails, started,
  stopped twice, and started again.
\<close>

definition failing_stop :: "unit hook" where
  "failing_stop = (\<lambda>w. (Some (ErrorsNew ''stop failed''), w))"

definition three_services :: "unit call list" where
  "three_services =
     [CallAdd (NewBaseService ''s1'' [] []),
      CallAdd (SetStopFunc (NewBaseService ''s2'' [] []) (Some failing_stop)),
      CallAdd (NewBaseService ''s3'' [] []),
      CallStart [''s1'', ''s2'', ''s3'']]"

definition three_running :: "unit ServiceGroup" where
  "three_running = fst (do_calls three_services (NewServiceGroup DefaultServiceGroupOptions []) ())"

definition restart_calls :: "unit call list" where
  "restart_calls =
     [CallAdd boom_service, CallStart [''db''], CallStop [''db''],
      CallGracefulStop [''db''] [] None, CallStart [''db'']]"

section \<open>Properties of the state machine\<close>

lemma isValidTransition_default:
  "transitions sm = makeDefaultTransitions \<Longrightarrow>
   isValidTransition sm from to = documented_edge from to"
  by (cases "from"; cases "to"; simp add: isValidTransition_def makeDefaultTransitions_def)

lemma TransitionTo_invalid:
  "\<not> isValidTransition sm (state sm) newState \<Longrightarrow>
   TransitionTo sm newState other =
     (sm, Some (ServiceError ErrInvalidState
        (''invalid state transition from '' @ String (state sm) @ '' to '' @ String newState) None))"
  by (simp add: TransitionTo_def)

lemma TransitionTo_alone:
  "isValidTransition sm (state sm) newState \<Longrightarrow>
   TransitionTo sm newState None =
     (if onTransition sm
      then sm\<lparr>state := newState, notified := notified sm @ [(state sm, newState)]\<rparr>
      else sm\<lparr>state := newState\<rparr>, None)"
  by (simp add: TransitionTo_def CompareAndSwap_def)

lemma TransitionTo_raced:
  "isValidTransition sm (state sm) newState \<Longrightarrow> s \<noteq> state sm \<Longrightarrow>
   TransitionTo sm newState (Some s) =
     (sm\<lparr>state := s\<rparr>,
      Some (ServiceError ErrInvalidState ''state was changed by another goroutine'' None))"
  by (simp add: TransitionTo_def CompareAndSwap_def)

lemma TransitionTo_success_valid:
  "snd (TransitionTo sm newState other) = None \<Longrightarrow> isValidTransition sm (state sm) newState"
  by (cases "isValidTransition sm (state sm) newState") (simp_all add: TransitionTo_def)


text \<open>
  C5. Under the default transition table \<^verbatim>\<open>TransitionTo\<close> succeeds only along the edges the
  specification lists: along such an edge a call that nobody interferes with succeeds and
  leaves the new state; whatever another goroutine does, a call that succeeds went along a
  listed edge; and for every other pair of states the call fails with the error of code
  \<^verbatim>\<open>ErrInvalidState\<close> and message "invalid state transition from ... to ...", and the
  machine is left as it was.
\<close>

theorem TransitionTo_default_table:
  assumes "transitions sm = makeDefaultTransitions"
  shows "(documented_edge (state sm) newState \<longrightarrow>
            snd (TransitionTo sm newState None) = None \<and>
            state (fst (TransitionTo sm newState None)) = newState)
       \<and> (snd (TransitionTo sm newState other) = None \<longrightarrow> documented_edge (state sm) newState)
       \<and> (\<not> documented_edge (state sm) newState \<longrightarrow>
            TransitionTo sm newState other =
              (sm, Some (ServiceError ErrInvalidState
                 (''invalid state transition from '' @ String (state sm) @ '' to '' @ String newState)
                 None)))"
  using assms TransitionTo_invalid[of sm newState other] TransitionTo_alone[of sm newState]
    TransitionTo_success_valid[of sm newState other]
  by (auto simp: isValidTransition_default)

theorem TransitionTo_default_table_witness:
  "snd (TransitionTo (NewStateMachine StateUninitialized True) StateInitialized None) = None
   \<and> state (fst (TransitionTo (NewStateMachine StateUninitialized True) StateInitialized None)) = StateInitialized
   \<and> TransitionTo (NewStateMachine StateRunning True) StateStarting None =
       (NewStateMachine StateRunning True,
        Some (ServiceError ErrInvalidState ''invalid state transition from Running to Starting'' None))"
  using TransitionTo_default_table[of "NewStateMachine StateUninitialized True" StateInitialized None]
    TransitionTo_default_table[of "NewStateMachine StateRunning True" StateStarting None]
  by (simp add: NewStateMachine_def)


text \<open>
  C3, as the specification states it, fails: when the compare-and-swap fails because
  another goroutine has moved the machine in between (here both try Uninitialized to
  Initialized and the other one wins), the error carries \<^verbatim>\<open>ErrInvalidState\<close>, the very code
  of an illegal transition; the package has no code for a concurrent state change.
\<close>

theorem TransitionTo_race_code_counterexample:
  "isValidTransition (NewStateMachine StateUninitialized True) StateUninitialized StateInitialized
   \<and> snd (TransitionTo (NewStateMachine StateUninitialized True) StateInitialized (Some StateInitialized))
       = Some (ServiceError ErrInvalidState ''state was changed by another goroutine'' None)
   \<and> Code (the (snd (TransitionTo (NewStateMachine StateUninitialized True) StateInitialized
                       (Some StateInitialized)))) =
     Code (the (snd (TransitionTo (NewStateMachine StateUninitialized True) StateRunning None)))"
  by (simp add: TransitionTo_def CompareAndSwap_def NewStateMachine_def isValidTransition_def
      makeDefaultTransitions_def)


text \<open>
  C3, amended. When the transition is legal and another goroutine has stored a different
  state between the check and the swap, \<^verbatim>\<open>TransitionTo\<close> fails with the code
  \<^verbatim>\<open>ErrInvalidState\<close> (the code of illegal transitions as well) and the message "state was
  changed by another goroutine", and leaves the state the other goroutine stored.
\<close>

theorem TransitionTo_race_InvalidState:
  assumes "isValidTransition sm (state sm) newState" and "s \<noteq> state sm"
  shows "TransitionTo sm newState (Some s) =
           (sm\<lparr>state := s\<rparr>,
            Some (ServiceError ErrInvalidState ''state was changed by another goroutine'' None))"
  using assms by (rule TransitionTo_raced)

theorem TransitionTo_race_InvalidState_witness:
  "isValidTransition (NewStateMachine StateStarting False) (state (NewStateMachine StateStarting False)) StateRunning
   \<and> StateError \<noteq> state (NewStateMachine StateStarting False)
   \<and> TransitionTo (NewStateMachine StateStarting False) StateRunning (Some StateError) =
       ((NewStateMachine StateStarting False)\<lparr>state := StateError\<rparr>,
        Some (ServiceError ErrInvalidState ''state was changed by another goroutine'' None))"
proof -
  have a: "isValidTransition (NewStateMachine StateStarting False)
             (state (NewStateMachine StateStarting False)) StateRunning"
    by (simp add: isValidTransition_def NewStateMachine_def makeDefaultTransitions_def)
  have b: "StateError \<noteq> state (NewStateMachine StateStarting False)"
    by (simp add: NewStateMachine_def)
  from a b TransitionTo_race_InvalidState[OF a b] show ?thesis by simp
qed


section \<open>Properties of the default service\<close>

lemma TransitionTo_default_None:
  "transitions sm = makeDefaultTransitions \<Longrightarrow>
   TransitionTo sm t None =
     (if documented_edge (state sm) t
      then (if onTransition sm
            then sm\<lparr>state := t, notified := notified sm @ [(state sm, t)]\<rparr>
            else sm\<lparr>state := t\<rparr>, None)
      else (sm, Some (ServiceError ErrInvalidState
              (''invalid state transition from '' @ String (state sm) @ '' to '' @ String t) None)))"
  using TransitionTo_invalid[of sm t None] TransitionTo_alone[of sm t]
  by (simp add: isValidTransition_default)

lemma Start_from_Initialized_hook_fails:
  assumes "transitions (stateMachine bs) = makeDefaultTransitions"
    and "startFunc bs = Some f" and "f w = (Some e, w1)"
    and "State bs = StateInitialized \<or> State bs = StateStopped"
  shows "State (fst (Start_from_Initialized bs w)) = StateError"
    and "snd (Start_from_Initialized bs w) =
           (w1, Some (Errorf ''start function failed: %w'' [ArgErr (Some e)]))"
  using assms
  by (auto simp: Start_from_Initialized_def TransitionTo_default_None State_def Current_def)

lemma Start_from_Initialized_refused:
  assumes "transitions (stateMachine bs) = makeDefaultTransitions"
    and "State bs \<noteq> StateInitialized" and "State bs \<noteq> StateStopped"
  shows "Start_from_Initialized bs w =
           (bs, w, Some (Errorf ''failed to transition to Starting state: %w''
              [ArgErr (Some (ServiceError ErrInvalidState
                 (''invalid state transition from '' @ String (State bs) @ '' to Starting'') None))]))"
  using assms
  by (cases "state (stateMachine bs)")
     (simp_all add: Start_from_Initialized_def TransitionTo_default_None State_def Current_def)

lemma Init_ok_state:
  assumes "transitions (stateMachine bs) = makeDefaultTransitions"
    and "Init bs w = (bs1, w0, None)"
  shows "State bs1 = StateInitialized \<and> transitions (stateMachine bs1) = makeDefaultTransitions
         \<and> startFunc bs1 = startFunc bs"
  using assms
  by (cases "state (stateMachine bs)")
     (auto simp: Init_def TransitionTo_default_None State_def Current_def
           split: option.splits prod.splits if_splits)


text \<open>
  The table of a service made by \<^verbatim>\<open>NewBaseService\<close> is the default one, and the methods
  of the service leave the table as it is.
\<close>

lemma TransitionTo_table:
  "transitions (fst (TransitionTo sm t other)) = transitions sm"
  by (simp add: TransitionTo_def CompareAndSwap_def Let_def split: option.splits if_splits prod.splits)

lemma NewBaseService_table:
  "transitions (stateMachine (NewBaseService nm ds opts)) = makeDefaultTransitions"
  by (simp add: NewBaseService_def NewStateMachine_def)

lemma Init_table:
  "transitions (stateMachine (fst (Init bs w))) = transitions (stateMachine bs)"
  using TransitionTo_table[of "stateMachine bs" StateInitialized None]
    TransitionTo_table[of "fst (TransitionTo (stateMachine bs) StateInitialized None)" StateError None]
  by (auto simp: Init_def split: prod.splits option.splits)

lemma Start_from_Initialized_table:
  "transitions (stateMachine (fst (Start_from_Initialized bs w))) = transitions (stateMachine bs)"
  using TransitionTo_table[of "stateMachine bs" StateStarting None]
    TransitionTo_table[of "fst (TransitionTo (stateMachine bs) StateStarting None)" StateError None]
    TransitionTo_table[of "fst (TransitionTo (stateMachine bs) StateStarting None)" StateRunning None]
  by (auto simp: Start_from_Initialized_def split: prod.splits option.splits)

lemma Start_table:
  "transitions (stateMachine (fst (Start bs w))) = transitions (stateMachine bs)"
  using Init_table[of bs w] Start_from_Initialized_table[of bs w]
    Start_from_Initialized_table[of "fst (Init bs w)" "fst (snd (Init bs w))"]
  by (auto simp: Start_def split: prod.splits option.splits)

lemma Stop_table:
  "transitions (stateMachine (fst (Stop bs w))) = transitions (stateMachine bs)"
  using TransitionTo_table[of "stateMachine bs" StateStopping None]
    TransitionTo_table[of "fst (TransitionTo (stateMachine bs) StateStopping None)" StateError None]
    TransitionTo_table[of "fst (TransitionTo (stateMachine bs) StateStopping None)" StateStopped None]
  by (auto simp: Stop_def split: prod.splits option.splits)

lemma setters_table:
  "transitions (stateMachine (SetInitFunc bs h)) = transitions (stateMachine bs)"
  "transitions (stateMachine (SetStartFunc bs h)) = transitions (stateMachine bs)"
  "transitions (stateMachine (SetStopFunc bs h)) = transitions (stateMachine bs)"
  "transitions (stateMachine (SetUpdateFunc bs h)) = transitions (stateMachine bs)"
  "transitions (stateMachine (fst (Update bs w))) = transitions (stateMachine bs)"
  by (simp_all add: SetInitFunc_def SetStartFunc_def SetStopFunc_def SetUpdateFunc_def Update_def
      split: option.splits prod.splits)


text \<open>
  C6. For a service with the default table whose start hook is set: whenever \<^verbatim>\<open>Start\<close>
  calls the hook and the hook returns an error, \<^verbatim>\<open>Start\<close> leaves the service in state
  Error and returns "start function failed" wrapping the hook's error. \<^verbatim>\<open>Start\<close> calls the
  hook, in the world \<^verbatim>\<open>Init\<close> has left, when the service is Uninitialized and \<^verbatim>\<open>Init\<close>
  succeeds, and in the world of the call when the service is Initialized or Stopped. In
  the remaining cases the hook is not called, so it returns nothing: when \<^verbatim>\<open>Init\<close> fails,
  \<^verbatim>\<open>Start\<close> returns "failed to initialize service" wrapping that error, and from every
  other state it returns "failed to transition to Starting state" and leaves the service
  as it was.
\<close>

theorem Start_hook_failure:
  assumes "transitions (stateMachine bs) = makeDefaultTransitions"
    and "startFunc bs = Some f"
  shows "((State bs = StateInitialized \<or> State bs = StateStopped) \<longrightarrow> f w = (Some e, w1) \<longrightarrow>
           State (fst (Start bs w)) = StateError \<and>
           snd (Start bs w) = (w1, Some (Errorf ''start function failed: %w'' [ArgErr (Some e)])) \<and>
           cause (the (snd (snd (Start bs w)))) = Some e)
    \<and> (State bs = StateUninitialized \<longrightarrow> Init bs w = (bs1, w0, None) \<longrightarrow> f w0 = (Some e, w1) \<longrightarrow>
           State (fst (Start bs w)) = StateError \<and>
           snd (Start bs w) = (w1, Some (Errorf ''start function failed: %w'' [ArgErr (Some e)])) \<and>
           cause (the (snd (snd (Start bs w)))) = Some e)
    \<and> (State bs = StateUninitialized \<longrightarrow> Init bs w = (bs1, w0, Some err) \<longrightarrow>
           Start bs w =
             (bs1, w0, Some (Errorf ''failed to initialize service: %w'' [ArgErr (Some err)])))
    \<and> (State bs \<noteq> StateUninitialized \<longrightarrow> State bs \<noteq> StateInitialized \<longrightarrow> State bs \<noteq> StateStopped \<longrightarrow>
           Start bs w =
             (bs, w, Some (Errorf ''failed to transition to Starting state: %w''
                [ArgErr (Some (ServiceError ErrInvalidState
                   (''invalid state transition from '' @ String (State bs) @ '' to Starting'') None))])))"
proof (intro conjI impI)
  assume "State bs = StateInitialized \<or> State bs = StateStopped" and "f w = (Some e, w1)"
  with Start_from_Initialized_hook_fails[OF assms, of w e w1]
  show "State (fst (Start bs w)) = StateError"
    and "snd (Start bs w) = (w1, Some (Errorf ''start function failed: %w'' [ArgErr (Some e)]))"
    and "cause (the (snd (snd (Start bs w)))) = Some e"
    by (auto simp: Start_def cause_def)
next
  assume u: "State bs = StateUninitialized" and i: "Init bs w = (bs1, w0, None)"
    and h: "f w0 = (Some e, w1)"
  from Init_ok_state[OF assms(1) i] assms(2)
  have t: "transitions (stateMachine bs1) = makeDefaultTransitions"
    and s: "startFunc bs1 = Some f" and st: "State bs1 = StateInitialized \<or> State bs1 = StateStopped"
    by simp_all
  from Start_from_Initialized_hook_fails[OF t s h st] u i
  show "State (fst (Start bs w)) = StateError"
    and "snd (Start bs w) = (w1, Some (Errorf ''start function failed: %w'' [ArgErr (Some e)]))"
    and "cause (the (snd (snd (Start bs w)))) = Some e"
    by (simp_all add: Start_def cause_def)
next
  assume "State bs = StateUninitialized" and "Init bs w = (bs1, w0, Some err)"
  then show "Start bs w =
      (bs1, w0, Some (Errorf ''failed to initialize service: %w'' [ArgErr (Some err)]))"
    by (simp add: Start_def)
next
  assume "State bs \<noteq> StateUninitialized" "State bs \<noteq> StateInitialized" "State bs \<noteq> StateStopped"
  then show "Start bs w =
             (bs, w, Some (Errorf ''failed to transition to Starting state: %w''
                [ArgErr (Some (ServiceError ErrInvalidState
                   (''invalid state transition from '' @ String (State bs) @ '' to Starting'') None))]))"
    using Start_from_Initialized_refused[OF assms(1), of w] by (simp add: Start_def)
qed

theorem Start_hook_failure_witness:
  "transitions (stateMachine boom_service) = makeDefaultTransitions
   \<and> startFunc boom_service = Some boom_hook
   \<and> State boom_service = StateUninitialized
   \<and> snd (Init boom_service ()) = ((), None)
   \<and> boom_hook () = (Some (ErrorsNew ''boom''), ())
   \<and> State (fst (Start boom_service ())) = StateError
   \<and> snd (Start boom_service ()) =
       ((), Some (Errorf ''start function failed: %w'' [ArgErr (Some (ErrorsNew ''boom''))]))
   \<and> cause (the (snd (snd (Start boom_service ())))) = Some (ErrorsNew ''boom'')"
proof -
  have t: "transitions (stateMachine boom_service) = makeDefaultTransitions"
    by (simp add: boom_service_def SetStartFunc_def NewBaseService_def NewStateMachine_def)
  have s: "startFunc boom_service = Some boom_hook"
    by (simp add: boom_service_def SetStartFunc_def)
  have u: "State boom_service = StateUninitialized"
    by (simp add: boom_service_def SetStartFunc_def NewBaseService_def NewStateMachine_def
        State_def Current_def)
  obtain bs1 where i: "Init boom_service () = (bs1, (), None)"
    by (simp add: Init_def TransitionTo_default_None t boom_service_def SetStartFunc_def
        NewBaseService_def NewStateMachine_def)
  have h: "boom_hook () = (Some (ErrorsNew ''boom''), ())"
    by (simp add: boom_hook_def)
  from Start_hook_failure[OF t s, of "()" "ErrorsNew ''boom''" "()" bs1 "()"] t s u i h
  show ?thesis by (simp add: cause_def)
qed

declare retry_loop.simps [simp del]

lemma start_failures_Suc:
  "start_failures bs w (Suc n) =
     start_failures bs w n @ (case snd (snd (start_attempt bs w n)) of None \<Rightarrow> [] | Some e \<Rightarrow> [e])"
  by (simp add: start_failures_def List.map_filter_def split: option.splits)

lemma before_attempt_Suc:
  "before_attempt bs w k = (b, v) \<Longrightarrow> Start b v = (b1, v1, r) \<Longrightarrow>
   before_attempt bs w (Suc k) = (b1, v1)"
  by simp

lemma start_attempt_eq:
  "before_attempt bs w k = (b, v) \<Longrightarrow> start_attempt bs w k = Start b v"
  by (simp add: start_attempt_def)

lemma retry_loop_run:
  assumes "retried bs opts sel w n"
    and "int n < MaxAttempts opts"
    and "snd (snd (start_attempt bs w n)) = None \<or> int n + 1 = MaxAttempts opts \<or> sel (int n + 1) \<noteq> None"
    and "a \<le> n"
    and "before_attempt bs w a = (b, v)"
  shows "retry_loop opts sel lastErr (int a) (retry_delay opts a) b v
           (map (retry_delay opts) [0..<a]) (start_failures bs w a) =
         (case start_attempt bs w n of
            (b1, v1, r1) \<Rightarrow>
              \<lparr>rr_service = b1, rr_world = v1,
               rr_error =
                 (case r1 of
                    None \<Rightarrow> None
                  | Some e \<Rightarrow>
                      if int n + 1 = MaxAttempts opts
                      then Some (Errorf ''service start failed after %d attempts: %w''
                                   [ArgInt (int n + 1), ArgErr (Some e)])
                      else sel (int n + 1)),
               rr_waits =
                 map (retry_delay opts)
                   [0..<(if r1 \<noteq> None \<and> int n + 1 < MaxAttempts opts then Suc n else n)],
               rr_start_errors = start_failures bs w (Suc n)\<rparr>)"
  using assms(4,5)
proof (induction "n - a" arbitrary: a b v lastErr)
  case 0
  then have an: "a = n" by simp
  obtain b1 v1 r1 where st: "Start b v = (b1, v1, r1)" by (cases "Start b v") auto
  with 0(3) an have at: "start_attempt bs w n = (b1, v1, r1)" by (simp add: start_attempt_def)
  show ?case
  proof (cases r1)
    case None
    with at st an assms(2) show ?thesis
      by (subst retry_loop.simps) (simp add: start_failures_Suc)
  next
    case (Some e)
    show ?thesis
    proof (cases "int n + 1 = MaxAttempts opts")
      case True
      with Some at st an assms(2) show ?thesis
        by (subst retry_loop.simps) (simp add: start_failures_Suc)
    next
      case False
      with assms(3) at Some obtain c where c: "sel (int n + 1) = Some c" by auto
      from False assms(2) have "int n + 1 < MaxAttempts opts" by simp
      with c Some at st an assms(2) show ?thesis
        by (subst retry_loop.simps) (simp add: start_failures_Suc)
    qed
  qed
next
  case (Suc d)
  then have lt: "a < n" by simp
  with assms(1) have f: "snd (snd (start_attempt bs w a)) \<noteq> None" and m: "int a + 1 < MaxAttempts opts"
    and s: "sel (int a + 1) = None"
    by (simp_all add: retried_def)
  obtain b1 v1 r1 where st: "Start b v = (b1, v1, r1)" by (cases "Start b v") auto
  with Suc(4) have at: "start_attempt bs w a = (b1, v1, r1)" by (simp add: start_attempt_def)
  with f obtain err where r1: "r1 = Some err" by auto
  have nx: "before_attempt bs w (Suc a) = (b1, v1)"
    using before_attempt_Suc[OF Suc(4) st] .
  have d: "d = n - Suc a" using Suc(2) by simp
  have le: "Suc a \<le> n" using lt by simp
  have eq: "retry_loop opts sel lastErr (int a) (retry_delay opts a) b v
           (map (retry_delay opts) [0..<a]) (start_failures bs w a) =
        retry_loop opts sel (Some err) (int (Suc a)) (retry_delay opts (Suc a)) b1 v1
           (map (retry_delay opts) [0..<Suc a]) (start_failures bs w (Suc a))"
    using st r1 m s at
    by (subst retry_loop.simps) (simp add: start_failures_Suc add.commute)
  show ?case unfolding eq by (rule Suc(1)[OF d le nx])
qed


lemma StartWithRetry_run:
  assumes "retried bs opts sel w n"
    and "int n < MaxAttempts opts"
    and "snd (snd (start_attempt bs w n)) = None \<or> int n + 1 = MaxAttempts opts \<or> sel (int n + 1) \<noteq> None"
  shows "StartWithRetry bs opts sel w =
         (case start_attempt bs w n of
            (b1, v1, r1) \<Rightarrow>
              \<lparr>rr_service = b1, rr_world = v1,
               rr_error =
                 (case r1 of
                    None \<Rightarrow> None
                  | Some e \<Rightarrow>
                      if int n + 1 = MaxAttempts opts
                      then Some (Errorf ''service start failed after %d attempts: %w''
                                   [ArgInt (int n + 1), ArgErr (Some e)])
                      else sel (int n + 1)),
               rr_waits =
                 map (retry_delay opts)
                   [0..<(if r1 \<noteq> None \<and> int n + 1 < MaxAttempts opts then Suc n else n)],
               rr_start_errors = start_failures bs w (Suc n)\<rparr>)"
  using retry_loop_run[OF assms, of 0 bs w None]
  by (simp add: StartWithRetry_def start_failures_def List.map_filter_simps)

lemma StartWithRetry_no_attempt:
  "MaxAttempts opts \<le> 0 \<Longrightarrow>
   StartWithRetry bs opts sel w =
     \<lparr>rr_service = bs, rr_world = w,
      rr_error = Some (Errorf ''service start failed after %d attempts: %w''
                         [ArgInt 0, ArgErr None]),
      rr_waits = [], rr_start_errors = []\<rparr>"
  by (simp add: StartWithRetry_def retry_loop.simps)

lemma StartWithRetry_ends:
  assumes "0 < MaxAttempts opts"
  shows "\<exists>n. int n < MaxAttempts opts \<and> retried bs opts sel w n \<and>
             (snd (snd (start_attempt bs w n)) = None \<or> int n + 1 = MaxAttempts opts \<or>
              sel (int n + 1) \<noteq> None)"
proof -
  let ?P = "\<lambda>k. snd (snd (start_attempt bs w k)) = None \<or> int k + 1 \<ge> MaxAttempts opts \<or>
                 sel (int k + 1) \<noteq> None"
  let ?m = "nat (MaxAttempts opts - 1)"
  let ?n = "LEAST k. ?P k"
  have pm: "?P ?m" using assms by simp
  then have pn: "?P ?n" by (rule LeastI)
  have "?n \<le> ?m" using pm by (rule Least_le)
  then have lt: "int ?n < MaxAttempts opts" using assms by simp
  have "retried bs opts sel w ?n"
    unfolding retried_def
  proof (intro allI impI)
    fix k assume "k < ?n"
    then have "\<not> ?P k" by (rule not_less_Least)
    then show "snd (snd (start_attempt bs w k)) \<noteq> None \<and> int k + 1 < MaxAttempts opts \<and>
            sel (int k + 1) = None" by simp
  qed
  moreover from pn lt have "snd (snd (start_attempt bs w ?n)) = None \<or> int ?n + 1 = MaxAttempts opts \<or>
              sel (int ?n + 1) \<noteq> None" by auto
  ultimately show ?thesis using lt by blast
qed

lemma StartWithRetry_nil:
  assumes "rr_error (StartWithRetry bs opts sel w) = None"
  shows "\<exists>n. int n < MaxAttempts opts \<and> retried bs opts sel w n \<and>
             start_attempt bs w n =
               (rr_service (StartWithRetry bs opts sel w), rr_world (StartWithRetry bs opts sel w), None)"
proof (cases "0 < MaxAttempts opts")
  case False
  then have "MaxAttempts opts \<le> 0" by simp
  from StartWithRetry_no_attempt[OF this, of bs sel w] assms show ?thesis by simp
next
  case True
  from StartWithRetry_ends[OF True, of bs sel w] obtain n where
    n: "int n < MaxAttempts opts" and r: "retried bs opts sel w n"
    and t: "snd (snd (start_attempt bs w n)) = None \<or> int n + 1 = MaxAttempts opts \<or>
              sel (int n + 1) \<noteq> None" by blast
  obtain b1 v1 r1 where at: "start_attempt bs w n = (b1, v1, r1)" by (cases "start_attempt bs w n") auto
  note run = StartWithRetry_run[OF r n t, unfolded at, simplified]
  have "r1 = None"
  proof (cases r1)
    case (Some e)
    with run assms t at show ?thesis by (auto split: if_splits)
  qed simp
  with run at n r show ?thesis by auto
qed

lemma sint_double:
  fixes x :: Duration
  assumes "- (2 ^ 62) \<le> sint x" and "sint x < 2 ^ 62"
  shows "sint (x * 2) = 2 * sint x"
proof -
  have "sint (x * 2) = signed_take_bit 63 (sint x * 2)"
    by (simp add: sint_word_ariths)
  also have "\<dots> = sint x * 2"
    using assms by (intro signed_take_bit_int_eq_self) simp_all
  finally show ?thesis by simp
qed

lemma retry_delay_spec:
  assumes "0 \<le> sint (Delay opts)" and "sint (Delay opts) \<le> sint (MaxDelay opts)"
    and "sint (MaxDelay opts) < 2 ^ 62"
  shows "sint (retry_delay opts k) = spec_delay opts k"
proof (induction k)
  case 0
  with assms show ?case by (simp add: spec_delay_def)
next
  case (Suc k)
  let ?d = "retry_delay opts k"
  have b: "0 \<le> sint ?d" "sint ?d \<le> sint (MaxDelay opts)"
    using Suc assms by (simp_all add: spec_delay_def)
  then have "sint (?d * 2) = 2 * sint ?d"
    using assms(3) by (intro sint_double) simp_all
  then have "sint (retry_delay opts (Suc k)) = min (2 * sint ?d) (sint (MaxDelay opts))"
    by (simp add: min_Duration_def min_def)
  also have "\<dots> = spec_delay opts (Suc k)"
    using Suc assms(1,2) b by (simp add: spec_delay_def min_def) 
  finally show ?case .
qed



text \<open>
  C8, amended. \<^verbatim>\<open>StartWithRetry\<close> calls \<^verbatim>\<open>Start\<close> again and again, each call on the
  service and the world the call before it left. With \<^verbatim>\<open>MaxAttempts\<close> not positive it
  calls nothing and returns "service start failed after 0 attempts" wrapping nil. Otherwise,
  when the calls before number \<open>n\<close> (counted from 0) have failed and were retried, and
  \<open>n < MaxAttempts\<close>, the call number \<open>n\<close> is made and decides the rest:
  if it succeeds, \<^verbatim>\<open>StartWithRetry\<close> returns nil and leaves what that call left;
  if it fails and the context is done during the wait that follows, \<^verbatim>\<open>StartWithRetry\<close>
  returns the context's error at once, with no further \<^verbatim>\<open>Start\<close>;
  if it fails and was attempt number \<^verbatim>\<open>MaxAttempts\<close>, \<^verbatim>\<open>StartWithRetry\<close> returns
  "service start failed after %d attempts" with \<^verbatim>\<open>MaxAttempts\<close>, the number of
  attempts made, wrapping the error of that last \<^verbatim>\<open>Start\<close>, without waiting again.
  One of the three happens for some \<open>n\<close>, and nil is returned only after a \<^verbatim>\<open>Start\<close> that
  succeeded. The wait after the failure number \<open>k\<close> is the loop's delay variable,
  \<open>retry_delay opts k\<close>: \<^verbatim>\<open>opts.Delay\<close> itself the first time, and
  \<^verbatim>\<open>min(delay*2, opts.MaxDelay)\<close> of the wait before afterwards, in 64-bit arithmetic; this
  is \<^verbatim>\<open>min(Delay * 2^k, MaxDelay)\<close> whenever \<open>0 \<le> Delay \<le> MaxDelay < 2^62\<close>.
\<close>

theorem StartWithRetry_backoff:
  "(MaxAttempts opts \<le> 0 \<longrightarrow>
      StartWithRetry bs opts sel w =
        \<lparr>rr_service = bs, rr_world = w,
         rr_error = Some (Errorf ''service start failed after %d attempts: %w''
                            [ArgInt 0, ArgErr None]),
         rr_waits = [], rr_start_errors = []\<rparr>)
   \<and> (retried bs opts sel w n \<and> int n < MaxAttempts opts \<and> start_attempt bs w n = (b1, v1, None) \<longrightarrow>
      StartWithRetry bs opts sel w =
        \<lparr>rr_service = b1, rr_world = v1, rr_error = None,
         rr_waits = map (retry_delay opts) [0..<n],
         rr_start_errors = start_failures bs w n\<rparr>)
   \<and> (retried bs opts sel w n \<and> start_attempt bs w n = (b1, v1, Some e) \<and>
      int n + 1 < MaxAttempts opts \<and> sel (int n + 1) = Some c \<longrightarrow>
      StartWithRetry bs opts sel w =
        \<lparr>rr_service = b1, rr_world = v1, rr_error = Some c,
         rr_waits = map (retry_delay opts) [0..<Suc n],
         rr_start_errors = start_failures bs w n @ [e]\<rparr>)
   \<and> (retried bs opts sel w n \<and> start_attempt bs w n = (b1, v1, Some e) \<and>
      int n + 1 = MaxAttempts opts \<longrightarrow>
      StartWithRetry bs opts sel w =
        \<lparr>rr_service = b1, rr_world = v1,
         rr_error = Some (Errorf ''service start failed after %d attempts: %w''
                            [ArgInt (MaxAttempts opts), ArgErr (Some e)]),
         rr_waits = map (retry_delay opts) [0..<n],
         rr_start_errors = start_failures bs w n @ [e]\<rparr>)
   \<and> (0 < MaxAttempts opts \<longrightarrow>
      (\<exists>m. int m < MaxAttempts opts \<and> retried bs opts sel w m \<and>
           (snd (snd (start_attempt bs w m)) = None \<or> int m + 1 = MaxAttempts opts \<or>
            sel (int m + 1) \<noteq> None)))
   \<and> (rr_error (StartWithRetry bs opts sel w) = None \<longrightarrow>
      (\<exists>m. int m < MaxAttempts opts \<and> retried bs opts sel w m \<and>
           start_attempt bs w m =
             (rr_service (StartWithRetry bs opts sel w),
              rr_world (StartWithRetry bs opts sel w), None)))
   \<and> (0 \<le> sint (Delay opts) \<and> sint (Delay opts) \<le> sint (MaxDelay opts) \<and>
      sint (MaxDelay opts) < 2 ^ 62 \<longrightarrow>
      sint (retry_delay opts k) = spec_delay opts k)"
proof (intro conjI impI)
  assume "MaxAttempts opts \<le> 0"
  then show "StartWithRetry bs opts sel w =
        \<lparr>rr_service = bs, rr_world = w,
         rr_error = Some (Errorf ''service start failed after %d attempts: %w''
                            [ArgInt 0, ArgErr None]),
         rr_waits = [], rr_start_errors = []\<rparr>"
    by (rule StartWithRetry_no_attempt)
next
  assume a: "retried bs opts sel w n \<and> int n < MaxAttempts opts \<and> start_attempt bs w n = (b1, v1, None)"
  then have t: "snd (snd (start_attempt bs w n)) = None \<or> int n + 1 = MaxAttempts opts \<or> sel (int n + 1) \<noteq> None"
    by simp
  from a have r: "retried bs opts sel w n" and l: "int n < MaxAttempts opts" by simp_all
  from StartWithRetry_run[OF r l t] a
  show "StartWithRetry bs opts sel w =
        \<lparr>rr_service = b1, rr_world = v1, rr_error = None,
         rr_waits = map (retry_delay opts) [0..<n],
         rr_start_errors = start_failures bs w n\<rparr>"
    by (simp add: start_failures_Suc)
next
  assume a: "retried bs opts sel w n \<and> start_attempt bs w n = (b1, v1, Some e) \<and>
      int n + 1 < MaxAttempts opts \<and> sel (int n + 1) = Some c"
  then have t: "snd (snd (start_attempt bs w n)) = None \<or> int n + 1 = MaxAttempts opts \<or> sel (int n + 1) \<noteq> None"
    by simp
  from a have r: "retried bs opts sel w n" and l: "int n < MaxAttempts opts" by simp_all
  from StartWithRetry_run[OF r l t] a
  show "StartWithRetry bs opts sel w =
        \<lparr>rr_service = b1, rr_world = v1, rr_error = Some c,
         rr_waits = map (retry_delay opts) [0..<Suc n],
         rr_start_errors = start_failures bs w n @ [e]\<rparr>"
    by (simp add: start_failures_Suc)
next
  assume a: "retried bs opts sel w n \<and> start_attempt bs w n = (b1, v1, Some e) \<and>
      int n + 1 = MaxAttempts opts"
  then have t: "snd (snd (start_attempt bs w n)) = None \<or> int n + 1 = MaxAttempts opts \<or> sel (int n + 1) \<noteq> None"
    by simp
  from a have r: "retried bs opts sel w n" and l: "int n < MaxAttempts opts" by simp_all
  from StartWithRetry_run[OF r l t] a
  show "StartWithRetry bs opts sel w =
        \<lparr>rr_service = b1, rr_world = v1,
         rr_error = Some (Errorf ''service start failed after %d attempts: %w''
                            [ArgInt (MaxAttempts opts), ArgErr (Some e)]),
         rr_waits = map (retry_delay opts) [0..<n],
         rr_start_errors = start_failures bs w n @ [e]\<rparr>"
    by (simp add: start_failures_Suc)
next
  assume "0 < MaxAttempts opts"
  then show "\<exists>m. int m < MaxAttempts opts \<and> retried bs opts sel w m \<and>
           (snd (snd (start_attempt bs w m)) = None \<or> int m + 1 = MaxAttempts opts \<or>
            sel (int m + 1) \<noteq> None)"
    by (rule StartWithRetry_ends)
next
  assume "rr_error (StartWithRetry bs opts sel w) = None"
  then show "\<exists>m. int m < MaxAttempts opts \<and> retried bs opts sel w m \<and>
           start_attempt bs w m =
             (rr_service (StartWithRetry bs opts sel w),
              rr_world (StartWithRetry bs opts sel w), None)"
    by (rule StartWithRetry_nil)
next
  assume "0 \<le> sint (Delay opts) \<and> sint (Delay opts) \<le> sint (MaxDelay opts) \<and>
      sint (MaxDelay opts) < 2 ^ 62"
  then show "sint (retry_delay opts k) = spec_delay opts k"
    by (intro retry_delay_spec) simp_all
qed


lemma boom_first:
  "Start boom_service () =
     (boom_failed, (), Some (Errorf ''start function failed: %w'' [ArgErr (Some (ErrorsNew ''boom''))]))"
    "state (stateMachine boom_failed) = StateError"
    "transitions (stateMachine boom_failed) = makeDefaultTransitions"
  by (simp_all add: boom_failed_def boom_service_def boom_hook_def SetStartFunc_def NewBaseService_def
      NewStateMachine_def Start_def Init_def Start_from_Initialized_def TransitionTo_default_None
      State_def Current_def)

lemma boom_again:
  "Start boom_failed () =
     (boom_failed, (), Some (Errorf ''failed to transition to Starting state: %w''
                [ArgErr (Some (ServiceError ErrInvalidState
                   ''invalid state transition from Error to Starting'' None))]))"
  using Start_from_Initialized_refused[of boom_failed "()"] boom_first(2,3)
  by (simp add: Start_def State_def Current_def)

lemma boom_before: "before_attempt boom_service () (Suc k) = (boom_failed, ())"
  by (induction k) (simp_all add: boom_first(1) boom_again)

lemma boom_start_attempt:
  "start_attempt boom_service () 0 =
     (boom_failed, (), Some (Errorf ''start function failed: %w'' [ArgErr (Some (ErrorsNew ''boom''))]))"
  "start_attempt boom_service () (Suc k) =
     (boom_failed, (), Some (Errorf ''failed to transition to Starting state: %w''
                [ArgErr (Some (ServiceError ErrInvalidState
                   ''invalid state transition from Error to Starting'' None))]))"
  by (simp_all add: start_attempt_def boom_before boom_first(1) boom_again del: before_attempt.simps(2))

lemma boom_failures:
  "start_failures boom_service () 1 =
     [Errorf ''start function failed: %w'' [ArgErr (Some (ErrorsNew ''boom''))]]"
  "start_failures boom_service () 2 =
     [Errorf ''start function failed: %w'' [ArgErr (Some (ErrorsNew ''boom''))],
      Errorf ''failed to transition to Starting state: %w''
                [ArgErr (Some (ServiceError ErrInvalidState
                   ''invalid state transition from Error to Starting'' None))]]"
proof -
  show a: "start_failures boom_service () 1 =
     [Errorf ''start function failed: %w'' [ArgErr (Some (ErrorsNew ''boom''))]]"
    using start_failures_Suc[of boom_service "()" 0]
    by (simp add: boom_start_attempt start_failures_def List.map_filter_simps)
  show "start_failures boom_service () 2 =
     [Errorf ''start function failed: %w'' [ArgErr (Some (ErrorsNew ''boom''))],
      Errorf ''failed to transition to Starting state: %w''
                [ArgErr (Some (ServiceError ErrInvalidState
                   ''invalid state transition from Error to Starting'' None))]]"
    using start_failures_Suc[of boom_service "()" 1] a
    by (simp add: boom_start_attempt numeral_2_eq_2)
qed

lemma boom_retried:
  "retried boom_service doubling (\<lambda>_. None) () 2"
  "retried boom_service doubling cancel_second () 1"
  by (auto simp: retried_def doubling_def cancel_second_def less_Suc_eq numeral_2_eq_2 boom_start_attempt)

lemma plain_start:
  "start_attempt plain_service () 0 = (fst (Start plain_service ()), (), None)"
  "State (fst (Start plain_service ())) = StateRunning"
  by (simp_all add: start_attempt_def plain_service_def NewBaseService_def
      NewStateMachine_def Start_def Init_def Start_from_Initialized_def TransitionTo_default_None
      State_def Current_def)

text \<open>
  C8, as stated, fails on the first wait: with \<^verbatim>\<open>Delay\<close> 2 s and \<^verbatim>\<open>MaxDelay\<close> 1 s the
  code waits 2 s after the first failure (the cap is applied only when the delay is
  doubled), then 1 s, where \<^verbatim>\<open>min(delay * 2^attempt, maxDelay)\<close> is 1 s both times,
  whether the attempts are counted from 0 or from 1.
\<close>

theorem StartWithRetry_first_wait_counterexample:
  "map sint (rr_waits (StartWithRetry boom_service capped_first (\<lambda>_. None) ()))
     = [2000000000, 1000000000]
   \<and> map (spec_delay capped_first) [0, 1] = [1000000000, 1000000000]
   \<and> map (spec_delay capped_first) [1, 2] = [1000000000, 1000000000]"
  by (simp add: StartWithRetry_def capped_first_def retry_loop.simps boom_first(1) boom_again
      min_Duration_def spec_delay_def)

theorem StartWithRetry_backoff_witness:
  "retried boom_service doubling (\<lambda>_. None) () 2
   \<and> start_attempt boom_service () 2 =
       (boom_failed, (), Some (Errorf ''failed to transition to Starting state: %w''
                [ArgErr (Some (ServiceError ErrInvalidState
                   ''invalid state transition from Error to Starting'' None))]))
   \<and> int 2 + 1 = MaxAttempts doubling
   \<and> StartWithRetry boom_service doubling (\<lambda>_. None) () =
       \<lparr>rr_service = boom_failed, rr_world = (),
        rr_error = Some (Errorf ''service start failed after %d attempts: %w''
              [ArgInt 3, ArgErr (Some (Errorf ''failed to transition to Starting state: %w''
                [ArgErr (Some (ServiceError ErrInvalidState
                   ''invalid state transition from Error to Starting'' None))]))]),
        rr_waits = [1000000000, 2000000000],
        rr_start_errors =
          [Errorf ''start function failed: %w'' [ArgErr (Some (ErrorsNew ''boom''))],
           Errorf ''failed to transition to Starting state: %w''
                [ArgErr (Some (ServiceError ErrInvalidState
                   ''invalid state transition from Error to Starting'' None))],
           Errorf ''failed to transition to Starting state: %w''
                [ArgErr (Some (ServiceError ErrInvalidState
                   ''invalid state transition from Error to Starting'' None))]]\<rparr>
   \<and> retried boom_service doubling cancel_second () 1
   \<and> int 1 + 1 < MaxAttempts doubling \<and> cancel_second (int 1 + 1) = Some Canceled
   \<and> StartWithRetry boom_service doubling cancel_second () =
       \<lparr>rr_service = boom_failed, rr_world = (), rr_error = Some Canceled,
        rr_waits = [1000000000, 2000000000],
        rr_start_errors =
          [Errorf ''start function failed: %w'' [ArgErr (Some (ErrorsNew ''boom''))],
           Errorf ''failed to transition to Starting state: %w''
                [ArgErr (Some (ServiceError ErrInvalidState
                   ''invalid state transition from Error to Starting'' None))]]\<rparr>
   \<and> retried plain_service doubling (\<lambda>_. None) () 0
   \<and> start_attempt plain_service () 0 = (fst (Start plain_service ()), (), None)
   \<and> State (fst (Start plain_service ())) = StateRunning
   \<and> StartWithRetry plain_service doubling (\<lambda>_. None) () =
       \<lparr>rr_service = fst (Start plain_service ()), rr_world = (), rr_error = None,
        rr_waits = [], rr_start_errors = []\<rparr>
   \<and> 0 \<le> sint (Delay doubling) \<and> sint (Delay doubling) \<le> sint (MaxDelay doubling)
   \<and> sint (MaxDelay doubling) < 2 ^ 62
   \<and> sint (retry_delay doubling 1) = 2000000000
   \<and> spec_delay doubling 1 = 2000000000"
proof -
  let ?refused = "Errorf ''failed to transition to Starting state: %w''
                [ArgErr (Some (ServiceError ErrInvalidState
                   ''invalid state transition from Error to Starting'' None))]"
  have a2: "start_attempt boom_service () 2 = (boom_failed, (), Some ?refused)"
    and a1: "start_attempt boom_service () 1 = (boom_failed, (), Some ?refused)"
    using boom_start_attempt(2)[of 1] boom_start_attempt(2)[of 0] by (simp_all add: numeral_2_eq_2)
  have m: "int 2 + 1 = MaxAttempts doubling" "int 1 + 1 < MaxAttempts doubling"
    "int 0 < MaxAttempts doubling" "MaxAttempts doubling = 3"
    by (simp_all add: doubling_def)
  have c: "cancel_second (int 1 + 1) = Some Canceled" by (simp add: cancel_second_def)
  have b: "0 \<le> sint (Delay doubling)" "sint (Delay doubling) \<le> sint (MaxDelay doubling)"
    "sint (MaxDelay doubling) < 2 ^ 62"
    by (simp_all add: doubling_def)
  have w: "map (retry_delay doubling) [0..<2] = [1000000000, 2000000000]"
    "map (retry_delay doubling) [0..<Suc 1] = [1000000000, 2000000000]"
    by (simp_all add: doubling_def min_Duration_def upt_rec numeral_2_eq_2)
  have s: "spec_delay doubling 1 = 2000000000" by (simp add: spec_delay_def doubling_def)
  have r0: "retried plain_service doubling (\<lambda>_. None) () 0" by (simp add: retried_def)
  have f0: "start_failures plain_service () 0 = []"
    by (simp add: start_failures_def List.map_filter_simps)
  note exhausted = StartWithRetry_backoff
    [where bs = boom_service and opts = doubling and sel = "\<lambda>_. None" and w = "()" and n = 2
       and ?b1.0 = boom_failed and ?v1.0 = "()" and e = ?refused and k = 1]
  note cancelled = StartWithRetry_backoff
    [where bs = boom_service and opts = doubling and sel = cancel_second and w = "()" and n = 1
       and ?b1.0 = boom_failed and ?v1.0 = "()" and e = ?refused and c = Canceled]
  note succeeded = StartWithRetry_backoff
    [where bs = plain_service and opts = doubling and sel = "\<lambda>_. None" and w = "()" and n = 0
       and ?b1.0 = "fst (Start plain_service ())" and ?v1.0 = "()"]
  from exhausted boom_retried(1) a2 m(1)
  have "StartWithRetry boom_service doubling (\<lambda>_. None) () =
        \<lparr>rr_service = boom_failed, rr_world = (),
         rr_error = Some (Errorf ''service start failed after %d attempts: %w''
                            [ArgInt (MaxAttempts doubling), ArgErr (Some ?refused)]),
         rr_waits = map (retry_delay doubling) [0..<2],
         rr_start_errors = start_failures boom_service () 2 @ [?refused]\<rparr>"
    by blast
  then have x: "StartWithRetry boom_service doubling (\<lambda>_. None) () =
        \<lparr>rr_service = boom_failed, rr_world = (),
         rr_error = Some (Errorf ''service start failed after %d attempts: %w''
                            [ArgInt 3, ArgErr (Some ?refused)]),
         rr_waits = [1000000000, 2000000000],
         rr_start_errors =
           [Errorf ''start function failed: %w'' [ArgErr (Some (ErrorsNew ''boom''))],
            ?refused, ?refused]\<rparr>"
    using boom_failures(2) by (simp add: doubling_def min_Duration_def upt_rec numeral_2_eq_2)
  from cancelled boom_retried(2) a1 m(2) c
  have "StartWithRetry boom_service doubling cancel_second () =
        \<lparr>rr_service = boom_failed, rr_world = (), rr_error = Some Canceled,
         rr_waits = map (retry_delay doubling) [0..<Suc 1],
         rr_start_errors = start_failures boom_service () 1 @ [?refused]\<rparr>"
    by blast
  then have y: "StartWithRetry boom_service doubling cancel_second () =
        \<lparr>rr_service = boom_failed, rr_world = (), rr_error = Some Canceled,
         rr_waits = [1000000000, 2000000000],
         rr_start_errors =
           [Errorf ''start function failed: %w'' [ArgErr (Some (ErrorsNew ''boom''))],
            ?refused]\<rparr>"
    using boom_failures(1) by (simp add: doubling_def min_Duration_def)
  from succeeded r0 plain_start(1) m(3)
  have "StartWithRetry plain_service doubling (\<lambda>_. None) () =
        \<lparr>rr_service = fst (Start plain_service ()), rr_world = (), rr_error = None,
         rr_waits = map (retry_delay doubling) [0..<0],
         rr_start_errors = start_failures plain_service () 0\<rparr>"
    by blast
  then have z: "StartWithRetry plain_service doubling (\<lambda>_. None) () =
        \<lparr>rr_service = fst (Start plain_service ()), rr_world = (), rr_error = None,
         rr_waits = [], rr_start_errors = []\<rparr>"
    by (simp add: f0)
  from exhausted b have "sint (retry_delay doubling 1) = spec_delay doubling 1" by blast
  with s have d: "sint (retry_delay doubling 1) = 2000000000" by simp
  from boom_retried a2 m(1,2) c x y r0 plain_start z b d s show ?thesis by blast
qed



section \<open>Properties of the dependency graph\<close>

subsection \<open>The cycle check of AddNode\<close>

lemma walked_refl: "walked dg s v v"
  unfolding walked_def by blast

lemma walked_trans: "walked dg s v v1 \<Longrightarrow> walked dg s v1 v2 \<Longrightarrow> walked dg s v v2"
  unfolding walked_def by blast

lemma walked_mark:
  assumes w: "walked dg s (v(cur := True)) v'" and ne: "cur \<noteq> s"
    and ds: "\<And>node d. fmlookup (nodes dg) cur = Some node \<Longrightarrow> d \<in> set (Deps node) \<Longrightarrow> v' d"
  shows "walked dg s v v'"
  unfolding walked_def
proof (intro conjI allI impI)
  fix x assume "v x"
  then have "(v(cur := True)) x" by simp
  with w show "v' x" unfolding walked_def by blast
next
  assume "v' s"
  with w have "(v(cur := True)) s" unfolding walked_def by blast
  with ne show "v s" by (simp split: if_splits)
next
  fix n node d
  assume h: "v' n \<and> \<not> v n \<and> fmlookup (nodes dg) n = Some node \<and> d \<in> set (Deps node)"
  show "v' d"
  proof (cases "n = cur")
    case True
    with h ds show ?thesis by blast
  next
    case False
    with h have "\<not> (v(cur := True)) n" by simp
    with h w show ?thesis unfolding walked_def by blast
  qed
qed

lemma check_walked:
  "check dg s cur v = Inr v' \<Longrightarrow> walked dg s v v' \<and> v' cur"
  "check_each dg s ds v = Inr v' \<Longrightarrow> walked dg s v v' \<and> (\<forall>d\<in>set ds. v' d)"
proof (induction dg s cur v and dg s ds v arbitrary: v' and v' rule: check_check_each.induct)
  case (1 dg service current visited)
  from 1(2) have ne: "current \<noteq> service" by (simp split: if_splits)
  show ?case
  proof (cases "visited current")
    case True
    with 1(2) ne show ?thesis by (simp add: walked_refl)
  next
    case False
    show ?thesis
    proof (cases "fmlookup (nodes dg) current")
      case None
      with 1(2) ne False have "v' = visited(current := True)" by simp
      with None ne show ?thesis unfolding walked_def by auto
    next
      case (Some node)
      with 1(2) ne False
      have e: "check_each dg service (Deps node) (visited(current := True)) = Inr v'" by simp
      from 1(1)[OF ne False Some e]
      have w: "walked dg service (visited(current := True)) v'" and d: "\<forall>d\<in>set (Deps node). v' d"
        by blast+
      have "walked dg service visited v'"
        using d Some by (intro walked_mark[OF w ne]) auto
      moreover have "(visited(current := True)) current" by simp
      with w have "v' current" unfolding walked_def by blast
      ultimately show ?thesis by simp
    qed
  qed
next
  case (2 dg service visited)
  then show ?case by (simp add: walked_refl)
next
  case (3 dg service dep rest visited)
  from 3(3) obtain v1 where a: "check dg service dep visited = Inr v1"
    and b: "check_each dg service rest v1 = Inr v'"
    by (simp split: sum.splits)
  from 3(1)[OF a] have w1: "walked dg service visited v1" and d1: "v1 dep" by blast+
  from 3(2)[OF a b] have w2: "walked dg service v1 v'" and d2: "\<forall>d\<in>set rest. v' d" by blast+
  from w2 d1 have "v' dep" unfolding walked_def by blast
  with walked_trans[OF w1 w2] d2 show ?case by simp
qed

lemma check_error:
  "check dg s cur v = Inl e \<Longrightarrow> e = cyclic_error"
  "check_each dg s ds v = Inl e \<Longrightarrow> e = cyclic_error"
proof (induction dg s cur v and dg s ds v rule: check_check_each.induct)
  case (1 dg service current visited)
  show ?case
  proof (cases "current = service")
    case True
    with 1(2) show ?thesis by (simp add: cyclic_error_def)
  next
    case False
    note ne = False
    show ?thesis
    proof (cases "visited current")
      case True
      with 1(2) ne show ?thesis by simp
    next
      case False
      show ?thesis
      proof (cases "fmlookup (nodes dg) current")
        case None
        with 1(2) ne False show ?thesis by simp
      next
        case (Some node)
        with 1(2) ne False
        have "check_each dg service (Deps node) (visited(current := True)) = Inl e" by simp
        then show ?thesis by (rule 1(1)[OF ne False Some])
      qed
    qed
  qed
next
  case (2 dg service visited)
  then show ?case by simp
next
  case (3 dg service dep rest visited)
  show ?case
  proof (cases "check dg service dep visited")
    case (Inl e1)
    with 3(3) have "e1 = e" by simp
    with Inl 3(1) show ?thesis by simp
  next
    case (Inr v1)
    with 3(3) have "check_each dg service rest v1 = Inl e" by simp
    then show ?thesis by (rule 3(2)[OF Inr])
  qed
qed

lemma walked_closed:
  assumes "walked dg s (\<lambda>_. False) v'" and "v' d" and "(d, x) \<in> (edges dg)\<^sup>*"
  shows "v' x"
  using assms(3,1,2)
proof (induction rule: rtrancl_induct)
  case base
  then show ?case by simp
next
  case (step y z)
  then have "v' y" by simp
  moreover from step(2) obtain node where "fmlookup (nodes dg) y = Some node" "z \<in> set (Deps node)"
    by (auto simp: edges_def)
  ultimately show ?case using step(4) unfolding walked_def by blast
qed

lemma checkCyclicDependency_None:
  assumes "checkCyclicDependency dg s ds = None" and "d \<in> set ds"
  shows "(d, s) \<notin> (edges dg)\<^sup>*"
proof
  assume r: "(d, s) \<in> (edges dg)\<^sup>*"
  from assms(1) obtain v' where c: "check_each dg s ds (\<lambda>_. False) = Inr v'"
    by (auto simp: checkCyclicDependency_def split: sum.splits)
  from check_walked(2)[OF c] assms(2) have w: "walked dg s (\<lambda>_. False) v'" and "v' d" by simp_all
  from walked_closed[OF w \<open>v' d\<close> r] have "v' s" .
  with w show False unfolding walked_def by blast
qed

lemma checkCyclicDependency_Some:
  "checkCyclicDependency dg s ds = Some e \<Longrightarrow> e = cyclic_error"
  by (auto simp: checkCyclicDependency_def split: sum.splits dest: check_error(2))

lemma checkCyclicDependency_reaches:
  assumes "d \<in> set ds" and "(d, s) \<in> (edges dg)\<^sup>*"
  shows "checkCyclicDependency dg s ds = Some cyclic_error"
proof (cases "checkCyclicDependency dg s ds")
  case None
  from checkCyclicDependency_None[OF None assms(1)] assms(2) show ?thesis by simp
next
  case (Some e)
  with checkCyclicDependency_Some[OF Some] show ?thesis by simp
qed


lemma graph_A_eq:
  "graph_A = \<lparr>nodes = fmupd ''A'' node_A fmempty\<rparr>"
  by (simp add: graph_A_def AddNode_def checkCyclicDependency_def NewDependencyGraph_def node_A_def)

lemma graph_A_B_eq:
  "graph_A_B = \<lparr>nodes = fmupd ''B'' node_B_plain (fmupd ''A'' node_A fmempty)\<rparr>"
  by (simp add: graph_A_B_def AddNode_def checkCyclicDependency_def NewDependencyGraph_def
      node_A_def node_B_plain_def)

text \<open>
  C4, as stated for every graph and every node, fails when the node's name is already a
  node: with A (depending on B) and B in the graph, adding a node named B that depends on
  A (its chain goes B, A, B) fails with \<^verbatim>\<open>ErrServiceAlreadyExists\<close>, not with the
  cyclic-dependency error: the duplicate check comes first.
\<close>

theorem AddNode_duplicate_counterexample:
  "''A'' \<in> set (Deps node_B) \<and> (''A'', Name node_B) \<in> (edges graph_A_B)\<^sup>*
   \<and> AddNode graph_A_B node_B =
       (graph_A_B, Some (ServiceError ErrServiceAlreadyExists
                           ''service B already exists in dependency graph'' None))"
proof -
  have "(''A'', ''B'') \<in> edges graph_A_B"
    by (simp add: edges_def graph_A_B_eq node_A_def)
  then have "(''A'', Name node_B) \<in> (edges graph_A_B)\<^sup>*"
    by (simp add: node_B_def)
  moreover have "AddNode graph_A_B node_B =
       (graph_A_B, Some (ServiceError ErrServiceAlreadyExists
                           ''service B already exists in dependency graph'' None))"
    by (simp add: AddNode_def graph_A_B_eq node_B_def)
  ultimately show ?thesis by (simp add: node_B_def)
qed

text \<open>
  C4, amended. For every graph and every node whose name is not yet in the graph and one
  of whose declared dependencies reaches the node's name along dependency edges,
  \<^verbatim>\<open>AddNode\<close> fails with the cyclic-dependency error (code \<^verbatim>\<open>ErrDependencyFailed\<close>) and leaves
  the graph exactly as it was. (When the name is already in the graph, \<^verbatim>\<open>AddNode\<close> fails
  with \<^verbatim>\<open>ErrServiceAlreadyExists\<close>, and leaves the graph as it was too.)
\<close>

theorem AddNode_cycle_rejected:
  "(fmlookup (nodes dg) (Name node) = None \<longrightarrow> d \<in> set (Deps node) \<longrightarrow>
      (d, Name node) \<in> (edges dg)\<^sup>* \<longrightarrow>
      AddNode dg node =
        (dg, Some (ServiceError ErrDependencyFailed ''cyclic dependency detected'' None)))
   \<and> (fmlookup (nodes dg) (Name node) \<noteq> None \<longrightarrow>
      AddNode dg node =
        (dg, Some (ServiceError ErrServiceAlreadyExists
                     (''service '' @ Name node @ '' already exists in dependency graph'') None)))"
  using checkCyclicDependency_reaches[of d "Deps node" "Name node" dg]
  by (auto simp: AddNode_def cyclic_error_def)


theorem AddNode_cycle_rejected_witness:
  "fmlookup (nodes graph_A) (Name node_B) = None \<and> ''A'' \<in> set (Deps node_B)
   \<and> (''A'', Name node_B) \<in> (edges graph_A)\<^sup>*
   \<and> AddNode graph_A node_B =
       (graph_A, Some (ServiceError ErrDependencyFailed ''cyclic dependency detected'' None))"
proof -
  have a: "fmlookup (nodes graph_A) (Name node_B) = None"
    by (simp add: graph_A_eq node_B_def)
  have b: "''A'' \<in> set (Deps node_B)" by (simp add: node_B_def)
  have "(''A'', ''B'') \<in> edges graph_A"
    by (simp add: edges_def graph_A_eq node_A_def)
  then have c: "(''A'', Name node_B) \<in> (edges graph_A)\<^sup>*"
    by (simp add: node_B_def)
  from AddNode_cycle_rejected[of graph_A node_B "''A''"] a b c show ?thesis by simp
qed

subsection \<open>Graphs built by AddNode have no cycle\<close>

lemma edges_fmupd:
  "fmlookup (nodes dg) N = None \<Longrightarrow>
   edges (dg\<lparr>nodes := fmupd N node (nodes dg)\<rparr>) = edges dg \<union> {N} \<times> set (Deps node)"
  by (auto simp: edges_def split: if_splits)

lemma reach_target_old:
  assumes "(y, N) \<in> (r \<union> {N} \<times> D)\<^sup>*"
  shows "(y, N) \<in> r\<^sup>*"
  using assms
proof (induction rule: converse_rtrancl_induct)
  case base
  show ?case by simp
next
  case (step y z)
  from step(1) show ?case
  proof
    assume "(y, z) \<in> r"
    then show ?thesis using step(3) by (rule converse_rtrancl_into_rtrancl)
  next
    assume "(y, z) \<in> {N} \<times> D"
    then show ?thesis by simp
  qed
qed

lemma path_split:
  assumes "(x, y) \<in> (r \<union> {N} \<times> D)\<^sup>+"
  shows "(x, y) \<in> r\<^sup>+ \<or> ((x, N) \<in> r\<^sup>* \<and> (\<exists>d\<in>D. (d, y) \<in> (r \<union> {N} \<times> D)\<^sup>*))"
  using assms
proof (induction rule: converse_trancl_induct)
  case (base x)
  then show ?case by auto
next
  case (step x z)
  from step(1) show ?case
  proof
    assume xz: "(x, z) \<in> r"
    from step(3) show ?thesis
    proof
      assume "(z, y) \<in> r\<^sup>+"
      with xz have "(x, y) \<in> r\<^sup>+" by (rule trancl_into_trancl2)
      then show ?thesis by simp
    next
      assume h: "(z, N) \<in> r\<^sup>* \<and> (\<exists>d\<in>D. (d, y) \<in> (r \<union> {N} \<times> D)\<^sup>*)"
      from xz h have "(x, N) \<in> r\<^sup>*" by (blast intro: converse_rtrancl_into_rtrancl)
      with h show ?thesis by simp
    qed
  next
    assume "(x, z) \<in> {N} \<times> D"
    then have "x = N" "z \<in> D" by auto
    moreover from step(2) have "(z, y) \<in> (r \<union> {N} \<times> D)\<^sup>*" by simp
    ultimately show ?thesis by blast
  qed
qed

lemma acyclic_add_out:
  assumes "acyclic r" and "\<forall>d\<in>D. (d, N) \<notin> r\<^sup>*"
  shows "acyclic (r \<union> {N} \<times> D)"
proof (rule acyclicI, intro allI notI)
  fix x assume c: "(x, x) \<in> (r \<union> {N} \<times> D)\<^sup>+"
  from path_split[OF c] show False
  proof
    assume "(x, x) \<in> r\<^sup>+"
    with assms(1) show False by (simp add: acyclic_def)
  next
    assume "(x, N) \<in> r\<^sup>* \<and> (\<exists>d\<in>D. (d, x) \<in> (r \<union> {N} \<times> D)\<^sup>*)"
    then obtain d where d: "d \<in> D" and dx: "(d, x) \<in> (r \<union> {N} \<times> D)\<^sup>*" and xn: "(x, N) \<in> r\<^sup>*"
      by blast
    from xn have "(x, N) \<in> (r \<union> {N} \<times> D)\<^sup>*" by (rule rtrancl_mono[THEN subsetD, rotated]) simp
    with dx have "(d, N) \<in> (r \<union> {N} \<times> D)\<^sup>*" by simp
    then have "(d, N) \<in> r\<^sup>*" by (rule reach_target_old)
    with assms(2) d show False by blast
  qed
qed

lemma AddNode_acyclic:
  assumes "acyclic (edges dg)"
  shows "acyclic (edges (fst (AddNode dg node)))"
proof (cases "fmlookup (nodes dg) (Name node)")
  case (Some a)
  with assms show ?thesis by (simp add: AddNode_def)
next
  case None
  show ?thesis
  proof (cases "checkCyclicDependency dg (Name node) (Deps node)")
    case (Some e)
    with None assms show ?thesis by (simp add: AddNode_def)
  next
    case c: None
    have "\<forall>d\<in>set (Deps node). (d, Name node) \<notin> (edges dg)\<^sup>*"
      using checkCyclicDependency_None[OF c] by blast
    with assms have "acyclic (edges dg \<union> {Name node} \<times> set (Deps node))"
      by (rule acyclic_add_out)
    with None c show ?thesis by (simp add: AddNode_def edges_fmupd)
  qed
qed

lemma add_nodes_acyclic: "acyclic (edges dg) \<Longrightarrow> acyclic (edges (add_nodes dg ns))"
  by (induction ns arbitrary: dg) (simp_all add: AddNode_acyclic)

lemma edges_empty: "edges NewDependencyGraph = {}"
  by (simp add: edges_def NewDependencyGraph_def)


subsection \<open>GetStartOrder\<close>

lemma visit_temp:
  "visit dg nm st = Inr st' \<Longrightarrow> temp st' = temp st"
  "visit_each dg ds st = Inr st' \<Longrightarrow> temp st' = temp st"
proof (induction dg nm st and dg ds st arbitrary: st' and st' rule: visit_visit_each.induct)
  case (1 dg nm st)
  from 1(2) have nt: "\<not> temp st nm" by (simp split: if_splits)
  show ?case
  proof (cases "visited st nm")
    case True
    with 1(2) nt show ?thesis by simp
  next
    case False
    with 1(2) nt obtain node st1 where
      n: "fmlookup (nodes dg) nm = Some node" and
      e: "visit_each dg (Deps node) (st\<lparr>temp := (temp st)(nm := True)\<rparr>) = Inr st1" and
      r: "st' = st1\<lparr>temp := (temp st1)(nm := False),
                     visited := (visited st1)(nm := True), order := order st1 @ [node]\<rparr>"
      by (auto split: option.splits sum.splits)
    have "temp st1 = temp (st\<lparr>temp := (temp st)(nm := True)\<rparr>)"
      by (rule 1(1)[OF nt False n e])
    then have "temp st1 x = ((temp st)(nm := True)) x" for x by simp
    with r nt show ?thesis by (auto simp: fun_eq_iff)
  qed
next
  case (2 dg st)
  then show ?case by simp
next
  case (3 dg dep rest st)
  from 3(3) obtain st1 where a: "visit dg dep st = Inr st1"
    and b: "visit_each dg rest st1 = Inr st'"
    by (simp split: sum.splits)
  from 3(1)[OF a] 3(2)[OF a b] show ?case by simp
qed

lemma visit_no_cycle_error:
  "visit dg nm st = Inl (Failed e) \<Longrightarrow> acyclic (edges dg) \<Longrightarrow>
     (\<forall>t. temp st t \<longrightarrow> (t, nm) \<in> (edges dg)\<^sup>+) \<Longrightarrow> False"
  "visit_each dg ds st = Inl (Failed e) \<Longrightarrow> acyclic (edges dg) \<Longrightarrow>
     (\<forall>t. temp st t \<longrightarrow> (\<forall>d\<in>set ds. (t, d) \<in> (edges dg)\<^sup>+)) \<Longrightarrow> False"
proof (induction dg nm st and dg ds st rule: visit_visit_each.induct)
  case (1 dg nm st)
  show ?case
  proof (cases "temp st nm")
    case True
    with 1(4) have "(nm, nm) \<in> (edges dg)\<^sup>+" by blast
    with 1(3) show False by (simp add: acyclic_def)
  next
    case False
    note nt = False
    show False
    proof (cases "visited st nm")
      case True
      with 1(2) nt show False by simp
    next
      case False
      show False
      proof (cases "fmlookup (nodes dg) nm")
        case None
        with 1(2) nt False show False by simp
      next
        case (Some node)
        with 1(2) nt False
        have f: "visit_each dg (Deps node) (st\<lparr>temp := (temp st)(nm := True)\<rparr>) = Inl (Failed e)"
          by (simp split: sum.splits)
        have "\<forall>t. temp (st\<lparr>temp := (temp st)(nm := True)\<rparr>) t \<longrightarrow>
                (\<forall>d\<in>set (Deps node). (t, d) \<in> (edges dg)\<^sup>+)"
        proof (intro allI impI ballI)
          fix t d assume t: "temp (st\<lparr>temp := (temp st)(nm := True)\<rparr>) t" and d: "d \<in> set (Deps node)"
          from Some d have e: "(nm, d) \<in> edges dg" by (auto simp: edges_def)
          show "(t, d) \<in> (edges dg)\<^sup>+"
          proof (cases "t = nm")
            case True
            with e show ?thesis by blast
          next
            case False
            with t have "temp st t" by simp
            with 1(4) have "(t, nm) \<in> (edges dg)\<^sup>+" by blast
            then show ?thesis using e by (rule trancl_into_trancl)
          qed
        qed
        with 1(1)[OF nt False Some f 1(3)] show False by blast
      qed
    qed
  qed
next
  case (2 dg st)
  then show ?case by simp
next
  case (3 dg dep rest st)
  show ?case
  proof (cases "visit dg dep st")
    case (Inl f)
    with 3(3) have "visit dg dep st = Inl (Failed e)" by simp
    from 3(1)[OF this 3(4)] 3(5) show False by simp
  next
    case (Inr st1)
    with 3(3) have r: "visit_each dg rest st1 = Inl (Failed e)" by simp
    from visit_temp(1)[OF Inr] 3(5)
    have "\<forall>t. temp st1 t \<longrightarrow> (\<forall>d\<in>set rest. (t, d) \<in> (edges dg)\<^sup>+)" by simp
    with 3(2)[OF Inr r 3(4)] show False by blast
  qed
qed

lemma visit_closed:
  "visit dg nm st = Inr st' \<Longrightarrow> closed dg (visited st) \<Longrightarrow>
     closed dg (visited st') \<and> visited st' nm \<and> (\<forall>x. visited st x \<longrightarrow> visited st' x)"
  "visit_each dg ds st = Inr st' \<Longrightarrow> closed dg (visited st) \<Longrightarrow>
     closed dg (visited st') \<and> (\<forall>d\<in>set ds. visited st' d) \<and> (\<forall>x. visited st x \<longrightarrow> visited st' x)"
proof (induction dg nm st and dg ds st arbitrary: st' and st' rule: visit_visit_each.induct)
  case (1 dg nm st)
  from 1(2) have nt: "\<not> temp st nm" by (simp split: if_splits)
  show ?case
  proof (cases "visited st nm")
    case True
    with 1(2,3) nt show ?thesis by simp
  next
    case False
    with 1(2) nt obtain node st1 where
      n: "fmlookup (nodes dg) nm = Some node" and
      e: "visit_each dg (Deps node) (st\<lparr>temp := (temp st)(nm := True)\<rparr>) = Inr st1" and
      r: "st' = st1\<lparr>temp := (temp st1)(nm := False),
                     visited := (visited st1)(nm := True), order := order st1 @ [node]\<rparr>"
      by (auto split: option.splits sum.splits)
    from 1(3) have "closed dg (visited (st\<lparr>temp := (temp st)(nm := True)\<rparr>))" by simp
    from 1(1)[OF nt False n e this]
    have c1: "closed dg (visited st1)" and d1: "\<forall>d\<in>set (Deps node). visited st1 d"
      and m1: "\<forall>x. visited (st\<lparr>temp := (temp st)(nm := True)\<rparr>) x \<longrightarrow> visited st1 x" by blast+
    have p: "visited st' k \<longleftrightarrow> k = nm \<or> visited st1 k" for k using r by simp
    have "closed dg (visited st')"
      unfolding closed_def
    proof (intro allI impI)
      fix k assume k: "visited st' k"
      show "\<exists>node. fmlookup (nodes dg) k = Some node \<and> (\<forall>d\<in>set (Deps node). visited st' d)"
      proof (cases "k = nm")
        case True
        with n d1 p show ?thesis by blast
      next
        case False
        with k p have "visited st1 k" by blast
        with c1 obtain nd where "fmlookup (nodes dg) k = Some nd" "\<forall>d\<in>set (Deps nd). visited st1 d"
          unfolding closed_def by blast
        with p show ?thesis by blast
      qed
    qed
    moreover have "visited st' nm" using p by blast
    moreover have "\<forall>x. visited st x \<longrightarrow> visited st' x" using m1 p by simp
    ultimately show ?thesis by blast
  qed
next
  case (2 dg st)
  then show ?case by simp
next
  case (3 dg dep rest st)
  from 3(3) obtain st1 where a: "visit dg dep st = Inr st1"
    and b: "visit_each dg rest st1 = Inr st'"
    by (simp split: sum.splits)
  from 3(1)[OF a 3(4)] have c1: "closed dg (visited st1)" and v1: "visited st1 dep"
    and m1: "\<forall>x. visited st x \<longrightarrow> visited st1 x" by blast+
  from 3(2)[OF a b c1] have c2: "closed dg (visited st')" and v2: "\<forall>d\<in>set rest. visited st' d"
    and m2: "\<forall>x. visited st1 x \<longrightarrow> visited st' x" by blast+
  from c2 v1 v2 m1 m2 show ?case by simp
qed

lemma visit_all_closed:
  "visit_all dg ks st = Inr st' \<Longrightarrow> closed dg (visited st) \<Longrightarrow>
     closed dg (visited st') \<and> (\<forall>k\<in>set ks. visited st' k) \<and> (\<forall>x. visited st x \<longrightarrow> visited st' x)"
proof (induction ks arbitrary: st)
  case Nil
  then show ?case by simp
next
  case (Cons k ks)
  show ?case
  proof (cases "visited st k")
    case True
    with Cons.prems have "visit_all dg ks st = Inr st'" by simp
    from Cons.IH[OF this Cons.prems(2)] True show ?thesis by simp
  next
    case False
    with Cons.prems(1) obtain st1 where a: "visit dg k st = Inr st1"
      and b: "visit_all dg ks st1 = Inr st'"
      by (simp split: sum.splits)
    from visit_closed(1)[OF a Cons.prems(2)] have c1: "closed dg (visited st1)"
      and v1: "visited st1 k" and m1: "\<forall>x. visited st x \<longrightarrow> visited st1 x" by blast+
    from Cons.IH[OF b c1] v1 m1 show ?thesis by simp
  qed
qed

lemma visit_all_no_cycle_error:
  "visit_all dg ks st = Inl (Failed e) \<Longrightarrow> acyclic (edges dg) \<Longrightarrow> temp st = (\<lambda>_. False) \<Longrightarrow> False"
proof (induction ks arbitrary: st)
  case Nil
  then show ?case by simp
next
  case (Cons k ks)
  show ?case
  proof (cases "visited st k")
    case True
    with Cons.prems(1) have "visit_all dg ks st = Inl (Failed e)" by simp
    from Cons.IH[OF this Cons.prems(2,3)] show False .
  next
    case False
    show False
    proof (cases "visit dg k st")
      case (Inl f)
      with False Cons.prems(1) have "visit dg k st = Inl (Failed e)" by simp
      from visit_no_cycle_error(1)[OF this Cons.prems(2)] Cons.prems(3) show False by simp
    next
      case (Inr st1)
      with False Cons.prems(1) have b: "visit_all dg ks st1 = Inl (Failed e)" by simp
      from visit_temp(1)[OF Inr] Cons.prems(3) have "temp st1 = (\<lambda>_. False)" by simp
      from Cons.IH[OF b Cons.prems(2) this] show False .
    qed
  qed
qed

lemma GetStartOrder_panics:
  assumes "acyclic (edges dg)" and "fmlookup (nodes dg) n = Some node" and "d \<in> set (Deps node)"
    and "fmlookup (nodes dg) d = None" and "n \<in> set ks"
  shows "GetStartOrder dg ks = Inl NilDereference"
proof (cases "visit_all dg ks \<lparr>visited = (\<lambda>_. False), temp = (\<lambda>_. False), order = []\<rparr>")
  case (Inl f)
  show ?thesis
  proof (cases f)
    case (Failed e)
    with Inl have "visit_all dg ks \<lparr>visited = (\<lambda>_. False), temp = (\<lambda>_. False), order = []\<rparr>
        = Inl (Failed e)" by simp
    from visit_all_no_cycle_error[OF this assms(1)] show ?thesis by simp
  next
    case NilDereference
    with Inl show ?thesis by (simp add: GetStartOrder_def)
  qed
next
  case (Inr st')
  have "closed dg (visited \<lparr>visited = (\<lambda>_. False), temp = (\<lambda>_. False), order = []\<rparr>)"
    by (simp add: closed_def)
  from visit_all_closed[OF Inr this] assms(5)
  have c: "closed dg (visited st')" and "visited st' n" by simp_all
  with assms(2,3) have "visited st' d" unfolding closed_def by fastforce
  with c assms(4) show ?thesis unfolding closed_def by fastforce
qed

lemma check_each_absent:
  "\<forall>d\<in>set ds. fmlookup (nodes dg) d = None \<and> d \<noteq> s \<Longrightarrow> \<exists>v'. check_each dg s ds v = Inr v'"
  by (induction ds arbitrary: v) auto

lemma AddNode_absent_deps:
  assumes "fmlookup (nodes dg) (Name node) = None"
    and "\<forall>d\<in>set (Deps node). fmlookup (nodes dg) d = None \<and> d \<noteq> Name node"
  shows "AddNode dg node = (dg\<lparr>nodes := fmupd (Name node) node (nodes dg)\<rparr>, None)"
  using assms(1) check_each_absent[OF assms(2), of "\<lambda>_. False"]
  by (auto simp: AddNode_def checkCyclicDependency_def)


lemma graph_api_alone_eq:
  "graph_api_alone = \<lparr>nodes = fmupd ''api'' node_api fmempty\<rparr>"
  by (simp add: graph_api_alone_def AddNode_def checkCyclicDependency_def NewDependencyGraph_def
      node_api_def)

lemma graph_database_api_eq:
  "graph_database_api = \<lparr>nodes = fmupd ''api'' node_api (fmupd ''database'' node_database fmempty)\<rparr>"
  by (simp add: graph_database_api_def AddNode_def checkCyclicDependency_def NewDependencyGraph_def
      node_api_def node_database_def)

text \<open>
  C9. \<^verbatim>\<open>AddNode\<close> accepts a node all of whose dependency names are absent from the graph
  (and are not its own name). And in every graph built by calls of \<^verbatim>\<open>AddNode\<close>, as long as
  some node declares a dependency that is not a node, \<^verbatim>\<open>GetStartOrder\<close> panics on the nil
  node, whatever order the range over the map takes; it returns neither an order nor an
  error.
\<close>

theorem GetStartOrder_absent_dependency_panics:
  "(fmlookup (nodes dg) (Name node) = None \<and>
    (\<forall>a\<in>set (Deps node). fmlookup (nodes dg) a = None \<and> a \<noteq> Name node) \<longrightarrow>
      AddNode dg node = (dg\<lparr>nodes := fmupd (Name node) node (nodes dg)\<rparr>, None))
   \<and> (fmlookup (nodes (add_nodes NewDependencyGraph ns)) n = Some nd \<and> d \<in> set (Deps nd) \<and>
      fmlookup (nodes (add_nodes NewDependencyGraph ns)) d = None \<and>
      set ks = fmdom' (nodes (add_nodes NewDependencyGraph ns)) \<longrightarrow>
        GetStartOrder (add_nodes NewDependencyGraph ns) ks = Inl NilDereference)"
proof (intro conjI impI)
  assume "fmlookup (nodes dg) (Name node) = None \<and>
    (\<forall>a\<in>set (Deps node). fmlookup (nodes dg) a = None \<and> a \<noteq> Name node)"
  then show "AddNode dg node = (dg\<lparr>nodes := fmupd (Name node) node (nodes dg)\<rparr>, None)"
    using AddNode_absent_deps by blast
next
  let ?g = "add_nodes NewDependencyGraph ns"
  assume h: "fmlookup (nodes ?g) n = Some nd \<and> d \<in> set (Deps nd) \<and>
      fmlookup (nodes ?g) d = None \<and> set ks = fmdom' (nodes ?g)"
  have "acyclic (edges ?g)"
    by (rule add_nodes_acyclic) (simp add: edges_empty acyclic_def)
  moreover from h have "n \<in> set ks" by (auto intro: fmdom'I)
  ultimately show "GetStartOrder ?g ks = Inl NilDereference"
    using h GetStartOrder_panics by blast
qed

theorem GetStartOrder_absent_dependency_panics_witness:
  "fmlookup (nodes NewDependencyGraph) (Name node_api) = None
   \<and> Deps node_api = [''database'']
   \<and> fmlookup (nodes NewDependencyGraph) ''database'' = None \<and> ''database'' \<noteq> Name node_api
   \<and> AddNode NewDependencyGraph node_api = (graph_api_alone, None)
   \<and> fmlookup (nodes graph_api_alone) ''api'' = Some node_api
   \<and> fmlookup (nodes graph_api_alone) ''database'' = None
   \<and> set [''api''] = fmdom' (nodes graph_api_alone)
   \<and> GetStartOrder graph_api_alone [''api''] = Inl NilDereference"
proof -
  have a: "fmlookup (nodes NewDependencyGraph) (Name node_api) = None"
    "Deps node_api = [''database'']"
    "fmlookup (nodes NewDependencyGraph) ''database'' = None" "''database'' \<noteq> Name node_api"
    by (simp_all add: NewDependencyGraph_def node_api_def)
  have g: "graph_api_alone = add_nodes NewDependencyGraph [node_api]"
    by (simp add: graph_api_alone_def)
  have u: "NewDependencyGraph\<lparr>nodes := fmupd (Name node_api) node_api (nodes NewDependencyGraph)\<rparr>
      = graph_api_alone"
    by (simp add: graph_api_alone_eq NewDependencyGraph_def node_api_def)
  have b: "fmlookup (nodes graph_api_alone) ''api'' = Some node_api"
    "fmlookup (nodes graph_api_alone) ''database'' = None"
    "set [''api''] = fmdom' (nodes graph_api_alone)"
    by (simp_all add: graph_api_alone_eq)
  from GetStartOrder_absent_dependency_panics
    [of NewDependencyGraph node_api "[node_api]" "''api''" node_api "''database''" "[''api'']"]
    a b u
  show ?thesis unfolding g[symmetric] by simp
qed

text \<open>
  C1 does not hold of the code. The database (priority Normal, no dependency) and the
  API (priority High, depending on the database) form an acyclic graph. Whichever of the
  two the range over the map visits first, the post-order is database, API; the API's
  only dependency stands at position 0 and 0 is not above the initial level 0, so both
  nodes get level 0, and the sort by priority puts the API (25) before the database
  (50): the dependency comes after its dependent.
\<close>

theorem GetStartOrder_dependent_first:
  "acyclic (edges graph_database_api)
   \<and> fmlookup (nodes graph_database_api) ''api'' = Some node_api
   \<and> fmlookup (nodes graph_database_api) ''database'' = Some node_database
   \<and> Deps node_api = [''database''] \<and> Deps node_database = []
   \<and> GetStartOrder graph_database_api [''database'', ''api''] = Inr [''api'', ''database'']
   \<and> GetStartOrder graph_database_api [''api'', ''database''] = Inr [''api'', ''database'']"
proof -
  have "acyclic (edges graph_database_api)"
    unfolding graph_database_api_def
    by (rule add_nodes_acyclic) (simp add: edges_empty acyclic_def)
  moreover have "fmlookup (nodes graph_database_api) ''api'' = Some node_api
   \<and> fmlookup (nodes graph_database_api) ''database'' = Some node_database
   \<and> Deps node_api = [''database''] \<and> Deps node_database = []
   \<and> GetStartOrder graph_database_api [''database'', ''api''] = Inr [''api'', ''database'']
   \<and> GetStartOrder graph_database_api [''api'', ''database''] = Inr [''api'', ''database'']"
    by (simp add: graph_database_api_eq GetStartOrder_def by_level_def group_levels_def level_of_def
        node_api_def node_database_def PriorityHigh_def PriorityNormal_def)
  ultimately show ?thesis by blast
qed


section \<open>Properties of the service group\<close>

subsection \<open>What the methods leave untouched\<close>

lemma startService_keeps:
  "startService sg nm w = (sg1, w1, r) \<Longrightarrow>
     isStarting sg1 = isStarting sg \<and> options sg1 = options sg \<and> healthLoops sg1 = healthLoops sg
     \<and> events sg1 = events sg \<and> depGraph sg1 = depGraph sg"
  by (auto simp: startService_def split: option.splits prod.splits)

lemma stopService_keeps:
  "stopService sg nm w = (sg1, w1, r) \<Longrightarrow>
     isStarting sg1 = isStarting sg \<and> options sg1 = options sg \<and> healthLoops sg1 = healthLoops sg
     \<and> events sg1 = events sg \<and> depGraph sg1 = depGraph sg"
  by (auto simp: stopService_def Let_def split: option.splits prod.splits)

lemma start_each_keeps:
  "start_each sg ns w = (sg1, w1, r) \<Longrightarrow>
     isStarting sg1 = isStarting sg \<and> options sg1 = options sg \<and> healthLoops sg1 = healthLoops sg"
proof (induction ns arbitrary: sg w)
  case Nil
  then show ?case by simp
next
  case (Cons n ns)
  obtain sg2 w2 r2 where s: "startService sg n w = (sg2, w2, r2)"
    by (cases "startService sg n w") auto
  show ?case
  proof (cases r2)
    case None
    with Cons.prems s have "start_each sg2 ns w2 = (sg1, w1, r)" by simp
    from Cons.IH[OF this] startService_keeps[OF s] show ?thesis by simp
  next
    case (Some e)
    with Cons.prems s have "sg1 = sg2" by simp
    with startService_keeps[OF s] show ?thesis by simp
  qed
qed

lemma stop_each_keeps:
  "stop_each sg ns w e0 = (sg1, w1, r) \<Longrightarrow> isStarting sg1 = isStarting sg"
proof (induction ns arbitrary: sg w e0)
  case Nil
  then show ?case by simp
next
  case (Cons n ns)
  obtain sg2 w2 r2 where s: "stopService sg n w = (sg2, w2, r2)"
    by (cases "stopService sg n w") auto
  show ?case
  proof (cases r2)
    case None
    with Cons.prems s have "stop_each sg2 ns w2 e0 = (sg1, w1, r)" by simp
    from Cons.IH[OF this] stopService_keeps[OF s] show ?thesis by simp
  next
    case (Some e)
    with Cons.prems s have "stop_each sg2 ns w2 (Some e) = (sg1, w1, r)" by simp
    from Cons.IH[OF this] stopService_keeps[OF s] show ?thesis by simp
  qed
qed

lemma stop_task_keeps:
  "stop_task sg nm w = (sg1, w1, r) \<Longrightarrow> isStarting sg1 = isStarting sg"
  by (auto simp: stop_task_def split: prod.splits option.splits dest: stopService_keeps)

lemma stop_tasks_keeps:
  "stop_tasks sg ns w = (sg1, w1, rs) \<Longrightarrow> isStarting sg1 = isStarting sg"
proof (induction ns arbitrary: sg w rs sg1 w1)
  case Nil
  then show ?case by simp
next
  case (Cons n ns)
  obtain sg2 w2 r2 where s: "stop_task sg n w = (sg2, w2, r2)"
    by (cases "stop_task sg n w") auto
  obtain sg3 w3 rs3 where t: "stop_tasks sg2 ns w2 = (sg3, w3, rs3)"
    by (cases "stop_tasks sg2 ns w2") auto
  from Cons.prems s t have "sg1 = sg3" by simp
  with Cons.IH[OF t] stop_task_keeps[OF s] show ?case by simp
qed

lemma ServiceGroup_Start_sets:
  "isStarting (fst (ServiceGroup_Start sg ks w))"
  by (auto simp: ServiceGroup_Start_def Let_def
      split: sum.splits failure.splits prod.splits option.splits dest: start_each_keeps)

lemma ServiceGroup_Start_guarded:
  "isStarting sg \<Longrightarrow> ServiceGroup_Start sg ks w = (sg, w, Returned (Some already_starting))"
  by (simp add: ServiceGroup_Start_def already_starting_def)

lemma ServiceGroup_Stop_keeps:
  "isStarting sg \<Longrightarrow> isStarting (fst (ServiceGroup_Stop sg ks w))"
  by (auto simp: ServiceGroup_Stop_def Let_def
      split: sum.splits failure.splits prod.splits dest: stop_each_keeps)

lemma GracefulStop_keeps:
  "isStarting sg \<Longrightarrow> isStarting (gr_group (GracefulStop sg ks picks deadline w))"
  by (auto simp: GracefulStop_def Let_def
      split: sum.splits failure.splits prod.splits option.splits dest: stop_tasks_keeps)

lemma Add_keeps: "isStarting sg \<Longrightarrow> isStarting (fst (Add sg s))"
  by (auto simp: Add_def Let_def split: option.splits prod.splits)

lemma UpdateService_keeps: "isStarting sg \<Longrightarrow> isStarting (fst (UpdateService sg nm w))"
  by (auto simp: UpdateService_def split: option.splits prod.splits)

lemma RestartService_keeps:
  assumes "isStarting sg"
  shows "isStarting (fst (RestartService sg nm w))"
proof (cases "fmlookup (services sg) nm")
  case None
  with assms show ?thesis by (simp add: RestartService_def)
next
  case (Some s)
  obtain sg1 w1 r1 where a: "stopService sg nm w = (sg1, w1, r1)"
    by (cases "stopService sg nm w") auto
  from stopService_keeps[OF a] assms have s1: "isStarting sg1" by simp
  show ?thesis
  proof (cases r1)
    case None
    obtain sg2 w2 r2 where b: "startService sg1 nm w1 = (sg2, w2, r2)"
      by (cases "startService sg1 nm w1") auto
    from startService_keeps[OF b] s1 have "isStarting sg2" by simp
    with Some a None b show ?thesis by (simp add: RestartService_def)
  next
    case (Some e)
    with \<open>fmlookup (services sg) nm = Some s\<close> a s1 show ?thesis by (simp add: RestartService_def)
  qed
qed

lemma do_call_keeps: "isStarting sg \<Longrightarrow> isStarting (fst (do_call c sg w))"
proof (cases c)
  case (CallAdd s)
  assume "isStarting sg"
  from Add_keeps[OF this, of s] CallAdd show ?thesis by (auto split: prod.splits)
next
  case (CallStart ks)
  with ServiceGroup_Start_sets[of sg ks w] show ?thesis by simp
next
  case (CallStop ks)
  assume "isStarting sg"
  from ServiceGroup_Stop_keeps[OF this, of ks w] CallStop show ?thesis by simp
next
  case (CallGracefulStop ks picks deadline)
  assume "isStarting sg"
  from GracefulStop_keeps[OF this, of ks picks deadline w] CallGracefulStop
  show ?thesis by (simp add: Let_def)
next
  case (CallRestartService nm)
  assume "isStarting sg"
  from RestartService_keeps[OF this, of nm w] CallRestartService
  show ?thesis by (auto split: prod.splits)
next
  case (CallUpdateService nm)
  assume "isStarting sg"
  from UpdateService_keeps[OF this, of nm w] CallUpdateService
  show ?thesis by (auto split: prod.splits)
next
  case (CallAddEventListener t l)
  assume "isStarting sg"
  with CallAddEventListener show ?thesis by (simp add: AddEventListener_def)
qed

lemma do_calls_guarded:
  "isStarting sg \<Longrightarrow> do_calls cs sg w = (sg', w', rs) \<Longrightarrow> j < length cs \<Longrightarrow>
   cs ! j = CallStart ks \<Longrightarrow> rs ! j = Returned (Some already_starting)"
proof (induction cs arbitrary: sg w rs j sg' w')
  case Nil
  then show ?case by simp
next
  case (Cons c cs)
  obtain sg1 w1 r1 where c: "do_call c sg w = (sg1, w1, r1)" by (cases "do_call c sg w") auto
  obtain sg2 w2 rs2 where d: "do_calls cs sg1 w1 = (sg2, w2, rs2)"
    by (cases "do_calls cs sg1 w1") auto
  from Cons.prems(2) c d have rs: "rs = r1 # rs2" by simp
  from do_call_keeps[OF Cons.prems(1), of c w] c have s1: "isStarting sg1" by simp
  show ?case
  proof (cases j)
    case 0
    with Cons.prems(4) have "c = CallStart ks" by simp
    with c ServiceGroup_Start_guarded[OF Cons.prems(1), of ks w] rs 0 show ?thesis by simp
  next
    case (Suc k)
    with Cons.prems(3,4) have "k < length cs" "cs ! k = CallStart ks" by simp_all
    from Cons.IH[OF s1 d this] rs Suc show ?thesis by simp
  qed
qed


subsection \<open>Evaluating the examples\<close>

lemmas group_eval =
  do_calls.simps do_call.simps Add_def AddNode_def checkCyclicDependency_def
  NewServiceGroup_def NewDependencyGraph_def NewEventManager_def DefaultServiceGroupOptions_def
  NewBaseService_def NewStateMachine_def SetStopFunc_def SetStartFunc_def
  ServiceGroup_Start_def ServiceGroup_Stop_def GracefulStop_def
  GetStartOrder_def by_level_def group_levels_def level_of_def
  startService_def stopService_def stop_task_def PublishEvent_def
  Start_def Init_def Start_from_Initialized_def Stop_def TransitionTo_default_None
  State_def Current_def RegisterService_def RecordStop_def RecordError_def
  PriorityNormal_def Let_def

lemma three_order:
  "GetStartOrder (depGraph three_running) [''s1'', ''s2'', ''s3''] = Inr [''s1'', ''s2'', ''s3'']"
  by (simp add: three_running_def three_services_def failing_stop_def group_eval)

lemma three_events: "published (events three_running) = []"
  by (simp add: three_running_def three_services_def failing_stop_def group_eval)

lemma three_results:
  "stop_results (three_running\<lparr>cancelled := True\<rparr>) [''s3'', ''s2'', ''s1''] () =
     [(''s3'', None),
      (''s2'', Some (Errorf ''failed to stop service %s: %w''
                       [ArgStr ''s2'', ArgErr (Some (ErrorsNew ''stop failed''))])),
      (''s1'', None)]"
  by (simp add: three_running_def three_services_def failing_stop_def group_eval)

lemma three_second:
  "\<exists>s. fmlookup (services (fst (before_stop (three_running\<lparr>cancelled := True\<rparr>)
                                  [''s3'', ''s2'', ''s1''] () 1))) ''s2'' = Some s
       \<and> transitions (stateMachine s) = makeDefaultTransitions
       \<and> State s = StateRunning \<and> stopFunc s = Some failing_stop"
  by (simp add: three_running_def three_services_def group_eval)

lemma restart_results:
  "snd (snd (do_calls restart_calls (NewServiceGroup DefaultServiceGroupOptions []) ())) ! 1 =
     Returned (Some (ServiceError ErrStartupFailed ''failed to start service db''
        (Some (Errorf ''start function failed: %w'' [ArgErr (Some (ErrorsNew ''boom''))]))))"
  by (simp add: restart_calls_def boom_service_def boom_hook_def group_eval)


subsection \<open>Health polling\<close>

lemma ServiceGroup_Start_healthLoops:
  assumes "ServiceGroup_Start sg ks w = (sg', w', out)"
  shows "healthLoops sg' =
           (if out = Returned None \<and> 0 < sint (HealthCheckInterval (options sg))
            then Suc (healthLoops sg) else healthLoops sg)"
proof (cases "isStarting sg")
  case True
  with assms show ?thesis by (auto simp: ServiceGroup_Start_def)
next
  case False
  note ns = False
  show ?thesis
  proof (cases "GetStartOrder (depGraph sg) ks")
    case (Inl f)
    with assms ns show ?thesis
      by (cases f) (auto simp: ServiceGroup_Start_def Let_def)
  next
    case (Inr startOrder)
    obtain sg2 w2 r2 where e: "start_each (sg\<lparr>isStarting := True\<rparr>) startOrder w = (sg2, w2, r2)"
      by (cases "start_each (sg\<lparr>isStarting := True\<rparr>) startOrder w") auto
    from start_each_keeps[OF e] have k: "options sg2 = options sg" "healthLoops sg2 = healthLoops sg"
      by simp_all
    show ?thesis
    proof (cases r2)
      case None
      with assms ns Inr e k show ?thesis
        by (auto simp: ServiceGroup_Start_def Let_def split: if_splits)
    next
      case (Some err)
      with assms ns Inr e k show ?thesis
        by (auto simp: ServiceGroup_Start_def Let_def)
    qed
  qed
qed

lemma GetStartOrder_empty: "GetStartOrder NewDependencyGraph [] = Inr []"
  by (simp add: GetStartOrder_def by_level_def group_levels_def)

lemma readme_start:
  "ServiceGroup_Start (NewServiceGroup DefaultServiceGroupOptions [readme_options]) [] () =
     ((NewServiceGroup DefaultServiceGroupOptions [readme_options])
        \<lparr>isStarting := True, healthLoops := 1\<rparr>, (), Returned None)"
  by (simp add: readme_options_def NewServiceGroup_def DefaultServiceGroupOptions_def Let_def
      ServiceGroup_Start_def GetStartOrder_empty)

lemma readme_start_no_polling:
  "ServiceGroup_Start (NewServiceGroup no_polling_defaults [readme_options]) [] () =
     ((NewServiceGroup no_polling_defaults [readme_options])\<lparr>isStarting := True\<rparr>, (), Returned None)"
  by (simp add: readme_options_def NewServiceGroup_def no_polling_defaults_def
      DefaultServiceGroupOptions_def Let_def ServiceGroup_Start_def GetStartOrder_empty)


text \<open>
  C2, as stated, fails: with the package variable \<^verbatim>\<open>DefaultServiceGroupOptions\<close> as it is
  declared, a group constructed with the README's options, whose \<^verbatim>\<open>HealthCheckInterval\<close>
  is 0, and started (successfully, having no service) has started one health-check
  goroutine.
\<close>

theorem NewServiceGroup_zero_interval_counterexample:
  "sint (HealthCheckInterval readme_options) \<le> 0
   \<and> healthLoops (NewServiceGroup DefaultServiceGroupOptions [readme_options] :: unit ServiceGroup) = 0
   \<and> ServiceGroup_Start (NewServiceGroup DefaultServiceGroupOptions [readme_options]) [] () =
       ((NewServiceGroup DefaultServiceGroupOptions [readme_options])
          \<lparr>isStarting := True, healthLoops := 1\<rparr>, (), Returned None)"
  using readme_start by (simp add: readme_options_def NewServiceGroup_def Let_def)


text \<open>
  C2, amended. When the options given to the constructor have a non-positive
  \<^verbatim>\<open>HealthCheckInterval\<close>, the constructor replaces it by the \<^verbatim>\<open>HealthCheckInterval\<close> the
  package variable \<^verbatim>\<open>DefaultServiceGroupOptions\<close> holds at that moment, which is 30 seconds
  as the variable is declared. For a group with these options a call of \<^verbatim>\<open>Start\<close> starts
  the background health-check goroutine exactly when it returns nil and that default
  interval is positive: health polling is disabled only when the program has made the
  default interval itself non-positive, and then no \<^verbatim>\<open>Start\<close> starts the goroutine.
\<close>

theorem NewServiceGroup_nonpositive_interval:
  "(sint (HealthCheckInterval o1) \<le> 0 \<longrightarrow>
      HealthCheckInterval (options (NewServiceGroup defaults (o1 # rest) :: 'w ServiceGroup)) =
        HealthCheckInterval defaults
      \<and> (options (sg :: 'w ServiceGroup) =
           options (NewServiceGroup defaults (o1 # rest) :: 'w ServiceGroup) \<longrightarrow>
         ServiceGroup_Start sg ks w = (sg', w', out) \<longrightarrow>
         healthLoops sg' =
           (if out = Returned None \<and> 0 < sint (HealthCheckInterval defaults)
            then Suc (healthLoops sg) else healthLoops sg)))
   \<and> HealthCheckInterval DefaultServiceGroupOptions = 30000000000"
proof (intro impI conjI)
  assume n: "sint (HealthCheckInterval o1) \<le> 0"
  then show i: "HealthCheckInterval (options (NewServiceGroup defaults (o1 # rest) :: 'w ServiceGroup)) =
      HealthCheckInterval defaults"
    by (simp add: NewServiceGroup_def Let_def)
  assume "options sg = options (NewServiceGroup defaults (o1 # rest) :: 'w ServiceGroup)"
    and s: "ServiceGroup_Start sg ks w = (sg', w', out)"
  with i have "HealthCheckInterval (options sg) = HealthCheckInterval defaults" by simp
  with ServiceGroup_Start_healthLoops[OF s]
  show "healthLoops sg' =
           (if out = Returned None \<and> 0 < sint (HealthCheckInterval defaults)
            then Suc (healthLoops sg) else healthLoops sg)" by simp
next
  show "HealthCheckInterval DefaultServiceGroupOptions = 30000000000"
    by (simp add: DefaultServiceGroupOptions_def)
qed

theorem NewServiceGroup_nonpositive_interval_witness:
  "sint (HealthCheckInterval readme_options) \<le> 0
   \<and> HealthCheckInterval
       (options (NewServiceGroup DefaultServiceGroupOptions [readme_options] :: unit ServiceGroup)) =
       30000000000
   \<and> snd (snd (ServiceGroup_Start (NewServiceGroup DefaultServiceGroupOptions [readme_options]) [] ())) =
       Returned None
   \<and> healthLoops (fst (ServiceGroup_Start (NewServiceGroup DefaultServiceGroupOptions [readme_options]) [] ())) =
       Suc (healthLoops (NewServiceGroup DefaultServiceGroupOptions [readme_options] :: unit ServiceGroup))
   \<and> sint (HealthCheckInterval no_polling_defaults) \<le> 0
   \<and> HealthCheckInterval
       (options (NewServiceGroup no_polling_defaults [readme_options] :: unit ServiceGroup)) = 0
   \<and> snd (snd (ServiceGroup_Start (NewServiceGroup no_polling_defaults [readme_options]) [] ())) =
       Returned None
   \<and> healthLoops (fst (ServiceGroup_Start (NewServiceGroup no_polling_defaults [readme_options]) [] ())) =
       healthLoops (NewServiceGroup no_polling_defaults [readme_options] :: unit ServiceGroup)"
proof -
  let ?g = "NewServiceGroup DefaultServiceGroupOptions [readme_options] :: unit ServiceGroup"
  let ?h = "NewServiceGroup no_polling_defaults [readme_options] :: unit ServiceGroup"
  have a: "sint (HealthCheckInterval readme_options) \<le> 0"
    by (simp add: readme_options_def)
  have d: "HealthCheckInterval DefaultServiceGroupOptions = 30000000000"
    "HealthCheckInterval no_polling_defaults = 0"
    by (simp_all add: DefaultServiceGroupOptions_def no_polling_defaults_def)
  have s: "ServiceGroup_Start ?g [] () = (fst (ServiceGroup_Start ?g [] ()), (), Returned None)"
    by (simp add: readme_start)
  have t: "ServiceGroup_Start ?h [] () = (fst (ServiceGroup_Start ?h [] ()), (), Returned None)"
    by (simp add: readme_start_no_polling)
  note g = NewServiceGroup_nonpositive_interval
    [of readme_options DefaultServiceGroupOptions "[]" ?g "[]" "()" "fst (ServiceGroup_Start ?g [] ())"
       "()" "Returned None"]
  note h = NewServiceGroup_nonpositive_interval
    [of readme_options no_polling_defaults "[]" ?h "[]" "()" "fst (ServiceGroup_Start ?h [] ())"
       "()" "Returned None"]
  from g a s d have "HealthCheckInterval (options ?g) = 30000000000
     \<and> healthLoops (fst (ServiceGroup_Start ?g [] ())) = Suc (healthLoops ?g)"
    by simp
  moreover from h a t d have "HealthCheckInterval (options ?h) = 0
     \<and> healthLoops (fst (ServiceGroup_Start ?h [] ())) = healthLoops ?h"
    by simp
  moreover have "snd (snd (ServiceGroup_Start ?g [] ())) = Returned None"
    by (simp add: readme_start)
  moreover have "snd (snd (ServiceGroup_Start ?h [] ())) = Returned None"
    by (simp add: readme_start_no_polling)
  ultimately show ?thesis using a d by simp
qed


subsection \<open>GracefulStop\<close>

lemma published_PublishEvent: "published (PublishEvent em ev) = published em @ [ev]"
  by (simp add: PublishEvent_def)

lemma stop_task_events:
  "stop_task sg nm w = (sg1, w1, r) \<Longrightarrow>
     published (events sg1) =
       published (events sg) @ (case r of None \<Rightarrow> [] | Some e \<Rightarrow> [stop_event nm e])"
  by (auto simp: stop_task_def stop_event_def published_PublishEvent
      split: prod.splits option.splits dest: stopService_keeps)

lemma stop_tasks_events:
  "stop_tasks sg ns w = (sg1, w1, rs) \<Longrightarrow>
     map fst rs = ns \<and>
     published (events sg1) =
       published (events sg) @ List.map_filter (\<lambda>(n, r). map_option (stop_event n) r) rs"
proof (induction ns arbitrary: sg w rs sg1 w1)
  case Nil
  then show ?case by (simp add: List.map_filter_simps)
next
  case (Cons n ns)
  obtain sg2 w2 r2 where s: "stop_task sg n w = (sg2, w2, r2)"
    by (cases "stop_task sg n w") auto
  obtain sg3 w3 rs3 where t: "stop_tasks sg2 ns w2 = (sg3, w3, rs3)"
    by (cases "stop_tasks sg2 ns w2") auto
  from Cons.prems s t have e: "sg1 = sg3" "rs = (n, r2) # rs3" by simp_all
  from Cons.IH[OF t] stop_task_events[OF s] e show ?case
    by (cases r2) (simp_all add: List.map_filter_simps)
qed

lemma mset_arrange: "mset (arrange picks xs) = mset xs"
proof (induction picks xs rule: arrange.induct)
  case (1 picks)
  then show ?case by simp
next
  case (2 x xs)
  then show ?case by simp
next
  case (3 p picks x xs)
  let ?l = "x # xs"
  let ?i = "p mod length ?l"
  have i: "?i < length ?l" by simp
  have "mset (arrange picks (take ?i ?l @ drop (Suc ?i) ?l)) = mset (take ?i ?l @ drop (Suc ?i) ?l)"
    by (rule 3[OF refl])
  then have "mset (arrange (p # picks) ?l) = {#?l ! ?i#} + mset (take ?i ?l @ drop (Suc ?i) ?l)"
    by (simp add: Let_def del: mset_append)
  also have "\<dots> = mset (take ?i ?l @ ?l ! ?i # drop (Suc ?i) ?l)" by simp
  also have "\<dots> = mset ?l" using id_take_nth_drop[OF i] by simp
  finally show ?case .
qed


lemma stopService_events:
  "stopService (sg\<lparr>events := em\<rparr>) nm w =
     (case stopService sg nm w of (sg1, w1, r) \<Rightarrow> (sg1\<lparr>events := em\<rparr>, w1, r))"
  by (simp add: stopService_def Let_def split: option.splits prod.splits)

lemma stop_results_events:
  "stop_results (sg\<lparr>events := em\<rparr>) ns w = stop_results sg ns w"
proof (induction ns arbitrary: sg w)
  case Nil
  then show ?case by simp
next
  case (Cons n ns)
  obtain sg1 w1 r where s: "stopService sg n w = (sg1, w1, r)"
    by (cases "stopService sg n w") auto
  with Cons.IH[of sg1 w1] show ?case by (simp add: stopService_events)
qed

lemma stop_tasks_results:
  "stop_tasks sg ns w = (sg', w', rs) \<Longrightarrow> rs = stop_results sg ns w"
proof (induction ns arbitrary: sg w rs sg' w')
  case Nil
  then show ?case by simp
next
  case (Cons n ns)
  obtain sgA wA r where s: "stopService sg n w = (sgA, wA, r)"
    by (cases "stopService sg n w") auto
  obtain sg2 where t: "stop_task sg n w = (sg2, wA, r)"
    and e: "sg2 = sgA \<or> (\<exists>em. sg2 = sgA\<lparr>events := em\<rparr>)"
    using s by (cases r) (auto simp: stop_task_def)
  obtain sg3 w3 rs3 where u: "stop_tasks sg2 ns wA = (sg3, w3, rs3)"
    by (cases "stop_tasks sg2 ns wA") auto
  from Cons.IH[OF u] have "rs3 = stop_results sg2 ns wA" .
  also from e have "\<dots> = stop_results sgA ns wA" by (auto simp: stop_results_events)
  finally have "rs3 = stop_results sgA ns wA" .
  with Cons.prems t u s show ?case by simp
qed

lemma stop_results_names: "map fst (stop_results sg ns w) = ns"
proof (induction ns arbitrary: sg w)
  case Nil
  then show ?case by simp
next
  case (Cons n ns)
  obtain sg1 w1 r where s: "stopService sg n w = (sg1, w1, r)"
    by (cases "stopService sg n w") auto
  with Cons.IH[of sg1 w1] show ?case by simp
qed

lemma stop_events_member:
  "(nm, Some e) \<in> set rs \<Longrightarrow> stop_event nm e \<in> set (stop_events rs)"
  by (force simp: stop_events_def List.map_filter_def)

lemma stopService_hook_fails:
  assumes "fmlookup (services g) nm = Some s"
    and "transitions (stateMachine s) = makeDefaultTransitions"
    and "State s = StateRunning" and "stopFunc s = Some f" and "f v = (Some e, v1)"
  shows "snd (snd (stopService g nm v)) =
           Some (Errorf ''failed to stop service %s: %w'' [ArgStr nm, ArgErr (Some e)])"
  using assms
  by (simp add: stopService_def Stop_def TransitionTo_default_None State_def Current_def Let_def)


lemma stop_results_nth:
  "i < length ns \<Longrightarrow> before_stop sg ns w i = (g, v) \<Longrightarrow>
   stop_results sg ns w ! i = (ns ! i, snd (snd (stopService g (ns ! i) v)))"
proof (induction ns arbitrary: sg w i)
  case Nil
  then show ?case by simp
next
  case (Cons n ns)
  obtain sg1 w1 r where s: "stopService sg n w = (sg1, w1, r)"
    by (cases "stopService sg n w") auto
  show ?case
  proof (cases i)
    case 0
    with Cons.prems s show ?thesis by simp
  next
    case (Suc j)
    with Cons.prems s have "j < length ns" "before_stop sg1 ns w1 j = (g, v)" by simp_all
    from Cons.IH[OF this] s Suc show ?thesis by simp
  qed
qed

lemma stop_results_hook_fails:
  assumes "i < length ns" and "before_stop sg ns w i = (g, v)"
    and "fmlookup (services g) (ns ! i) = Some s"
    and "transitions (stateMachine s) = makeDefaultTransitions"
    and "State s = StateRunning" and "stopFunc s = Some f" and "f v = (Some e, v1)"
  shows "(ns ! i, Some (Errorf ''failed to stop service %s: %w'' [ArgStr (ns ! i), ArgErr (Some e)]))
           \<in> set (stop_results sg ns w)"
proof -
  have "length (stop_results sg ns w) = length ns"
    using stop_results_names[of sg ns w] by (metis length_map)
  with assms(1) have "stop_results sg ns w ! i \<in> set (stop_results sg ns w)" by simp
  with stop_results_nth[OF assms(1,2)] stopService_hook_fails[OF assms(3-7)]
  show ?thesis by simp
qed


text \<open>
  C7. When \<^verbatim>\<open>GracefulStop\<close> has computed the stop order and all its goroutines finish
  before the context is done (the final \<^verbatim>\<open>select\<close> takes \<^verbatim>\<open>done\<close>), it returns nil,
  whatever \<^verbatim>\<open>stopService\<close> returned in the goroutines and in whatever order the
  scheduler ran them. Every service of the start order has been tried exactly once, and
  the events published are exactly one event of type Stop, carrying the error, for each
  call of \<^verbatim>\<open>stopService\<close> that returned an error. In particular, when the goroutine
  number \<open>i\<close> to run finds its service Running and the service's stop hook fails, the
  event with "failed to stop service", wrapping the hook's error, has been published.
\<close>

theorem GracefulStop_all_done:
  "GetStartOrder (depGraph sg) ks = Inr startOrder \<longrightarrow>
      gr_outcome (GracefulStop sg ks picks None w) = Returned None
      \<and> mset (arrange picks (rev startOrder)) = mset startOrder
      \<and> gr_tasks (GracefulStop sg ks picks None w) =
          stop_results (sg\<lparr>cancelled := True\<rparr>) (arrange picks (rev startOrder)) w
      \<and> map fst (stop_results (sg\<lparr>cancelled := True\<rparr>) (arrange picks (rev startOrder)) w) =
          arrange picks (rev startOrder)
      \<and> published (events (gr_group (GracefulStop sg ks picks None w))) =
          published (events sg) @
          stop_events (stop_results (sg\<lparr>cancelled := True\<rparr>) (arrange picks (rev startOrder)) w)
      \<and> ((nm, Some e) \<in> set (stop_results (sg\<lparr>cancelled := True\<rparr>)
                                (arrange picks (rev startOrder)) w) \<longrightarrow>
           stop_event nm e \<in> set (published (events (gr_group (GracefulStop sg ks picks None w)))))
      \<and> (i < length startOrder \<and>
         before_stop (sg\<lparr>cancelled := True\<rparr>) (arrange picks (rev startOrder)) w i = (g, v) \<and>
         fmlookup (services g) (arrange picks (rev startOrder) ! i) = Some s \<and>
         transitions (stateMachine s) = makeDefaultTransitions \<and>
         State s = StateRunning \<and> stopFunc s = Some f \<and> f v = (Some e', v1) \<longrightarrow>
           stop_event (arrange picks (rev startOrder) ! i)
             (Errorf ''failed to stop service %s: %w''
                [ArgStr (arrange picks (rev startOrder) ! i), ArgErr (Some e')])
             \<in> set (published (events (gr_group (GracefulStop sg ks picks None w)))))"
proof (intro conjI impI)
  assume g: "GetStartOrder (depGraph sg) ks = Inr startOrder"
  let ?run = "arrange picks (rev startOrder)"
  let ?rs = "stop_results (sg\<lparr>cancelled := True\<rparr>) ?run w"
  obtain sg2 w2 rs where t: "stop_tasks (sg\<lparr>cancelled := True\<rparr>) ?run w = (sg2, w2, rs)"
    by (cases "stop_tasks (sg\<lparr>cancelled := True\<rparr>) ?run w") auto
  from g t have r: "GracefulStop sg ks picks None w =
      \<lparr>gr_group = sg2, gr_world = w2, gr_outcome = Returned None, gr_tasks = rs\<rparr>"
    by (simp add: GracefulStop_def Let_def)
  from stop_tasks_results[OF t] have rs: "rs = ?rs" .
  from stop_tasks_events[OF t] rs have p: "published (events sg2) =
       published (events sg) @ stop_events ?rs"
    by (simp add: stop_events_def)
  from r show "gr_outcome (GracefulStop sg ks picks None w) = Returned None" by simp
  show "mset ?run = mset startOrder" by (simp add: mset_arrange)
  from r rs show "gr_tasks (GracefulStop sg ks picks None w) = ?rs" by simp
  show "map fst ?rs = ?run" by (rule stop_results_names)
  from r p show q: "published (events (gr_group (GracefulStop sg ks picks None w))) =
          published (events sg) @ stop_events ?rs" by simp
  {
    assume "(nm, Some e) \<in> set ?rs"
    then have "stop_event nm e \<in> set (stop_events ?rs)" by (rule stop_events_member)
    with q show "stop_event nm e \<in> set (published (events (gr_group (GracefulStop sg ks picks None w))))"
      by simp
  }
  assume h: "i < length startOrder \<and>
         before_stop (sg\<lparr>cancelled := True\<rparr>) ?run w i = (g, v) \<and>
         fmlookup (services g) (?run ! i) = Some s \<and>
         transitions (stateMachine s) = makeDefaultTransitions \<and>
         State s = StateRunning \<and> stopFunc s = Some f \<and> f v = (Some e', v1)"
  have "length ?run = length startOrder"
    using mset_arrange[of picks "rev startOrder"] by (metis mset_rev size_mset)
  with h have i: "i < length ?run" by simp
  from h have "(?run ! i, Some (Errorf ''failed to stop service %s: %w''
                [ArgStr (?run ! i), ArgErr (Some e')])) \<in> set ?rs"
    by (intro stop_results_hook_fails[OF i, of _ _ g v s f e' v1]) simp_all
  then have "stop_event (?run ! i) (Errorf ''failed to stop service %s: %w''
                [ArgStr (?run ! i), ArgErr (Some e')]) \<in> set (stop_events ?rs)"
    by (rule stop_events_member)
  with q show "stop_event (?run ! i)
             (Errorf ''failed to stop service %s: %w'' [ArgStr (?run ! i), ArgErr (Some e')])
             \<in> set (published (events (gr_group (GracefulStop sg ks picks None w))))"
    by simp
qed



theorem GracefulStop_all_done_witness:
  "GetStartOrder (depGraph three_running) [''s1'', ''s2'', ''s3''] = Inr [''s1'', ''s2'', ''s3'']
   \<and> gr_outcome (GracefulStop three_running [''s1'', ''s2'', ''s3''] [] None ()) = Returned None
   \<and> gr_tasks (GracefulStop three_running [''s1'', ''s2'', ''s3''] [] None ()) =
       [(''s3'', None),
        (''s2'', Some (Errorf ''failed to stop service %s: %w''
                         [ArgStr ''s2'', ArgErr (Some (ErrorsNew ''stop failed''))])),
        (''s1'', None)]
   \<and> published (events (gr_group (GracefulStop three_running [''s1'', ''s2'', ''s3''] [] None ()))) =
       [stop_event ''s2'' (Errorf ''failed to stop service %s: %w''
                            [ArgStr ''s2'', ArgErr (Some (ErrorsNew ''stop failed''))])]
   \<and> arrange [] (rev [''s1'', ''s2'', ''s3'']) ! 1 = ''s2''
   \<and> State (the (fmlookup (services (fst (before_stop (three_running\<lparr>cancelled := True\<rparr>)
                 (arrange [] (rev [''s1'', ''s2'', ''s3''])) () 1))) ''s2'')) = StateRunning
   \<and> stopFunc (the (fmlookup (services (fst (before_stop (three_running\<lparr>cancelled := True\<rparr>)
                 (arrange [] (rev [''s1'', ''s2'', ''s3''])) () 1))) ''s2'')) = Some failing_stop
   \<and> failing_stop () = (Some (ErrorsNew ''stop failed''), ())
   \<and> stop_event ''s2'' (Errorf ''failed to stop service %s: %w''
                            [ArgStr ''s2'', ArgErr (Some (ErrorsNew ''stop failed''))])
       \<in> set (published (events (gr_group (GracefulStop three_running [''s1'', ''s2'', ''s3''] [] None ()))))"
proof -
  let ?r = "GracefulStop three_running [''s1'', ''s2'', ''s3''] [] None ()"
  let ?err = "Errorf ''failed to stop service %s: %w''
                [ArgStr ''s2'', ArgErr (Some (ErrorsNew ''stop failed''))]"
  have run: "arrange [] (rev [''s1'', ''s2'', ''s3'']) = [''s3'', ''s2'', ''s1'']" by simp
  define g where "g = fst (before_stop (three_running\<lparr>cancelled := True\<rparr>) [''s3'', ''s2'', ''s1''] () 1)"
  have b: "before_stop (three_running\<lparr>cancelled := True\<rparr>) [''s3'', ''s2'', ''s1''] () 1 = (g, ())"
    unfolding g_def
    by (cases "before_stop (three_running\<lparr>cancelled := True\<rparr>) [''s3'', ''s2'', ''s1''] () 1") simp
  from three_second obtain s where s: "fmlookup (services g) ''s2'' = Some s"
    "transitions (stateMachine s) = makeDefaultTransitions"
    "State s = StateRunning" "stopFunc s = Some failing_stop"
    unfolding g_def by blast
  have f: "failing_stop () = (Some (ErrorsNew ''stop failed''), ())"
    by (simp add: failing_stop_def)
  note th = GracefulStop_all_done
    [where sg = three_running and ks = "[''s1'', ''s2'', ''s3'']"
       and startOrder = "[''s1'', ''s2'', ''s3'']" and picks = "[]" and w = "()"
       and i = 1 and g = g and v = "()" and s = s and f = failing_stop
       and e' = "ErrorsNew ''stop failed''" and ?v1.0 = "()",
     rule_format, OF three_order, unfolded run]
  from th have o: "gr_outcome ?r = Returned None" by blast
  from th have "gr_tasks ?r =
      stop_results (three_running\<lparr>cancelled := True\<rparr>) [''s3'', ''s2'', ''s1''] ()" by blast
  then have t: "gr_tasks ?r = [(''s3'', None), (''s2'', Some ?err), (''s1'', None)]"
    by (simp only: three_results)
  from th have "published (events (gr_group ?r)) =
      published (events three_running) @
      stop_events (stop_results (three_running\<lparr>cancelled := True\<rparr>) [''s3'', ''s2'', ''s1''] ())"
    by blast
  then have "published (events (gr_group ?r)) =
      published (events three_running) @
      stop_events [(''s3'', None), (''s2'', Some ?err), (''s1'', None)]"
    by (simp only: three_results)
  then have p: "published (events (gr_group ?r)) = [stop_event ''s2'' ?err]"
    by (simp add: three_events stop_events_def List.map_filter_simps)
  have n: "[''s3'', ''s2'', ''s1''] ! 1 = ''s2''" by simp
  have l: "(1::nat) < length [''s1'', ''s2'', ''s3'']" by simp
  from th[unfolded n] b s f l
  have m: "stop_event ''s2'' ?err \<in> set (published (events (gr_group ?r)))"
    by blast
  from s have "State (the (fmlookup (services g) ''s2'')) = StateRunning"
    "stopFunc (the (fmlookup (services g) ''s2'')) = Some failing_stop" by simp_all
  with three_order o t p m f show ?thesis unfolding run g_def by simp
qed


subsection \<open>The guard of Start\<close>

text \<open>
  C10. The flag \<^verbatim>\<open>isStarting\<close> is written at one place, the compare-and-swap at the head of
  \<^verbatim>\<open>Start\<close>, and no method resets it (the lemmas above). So in every sequence of calls on a
  group, in whatever state the group is at first, every \<^verbatim>\<open>Start\<close> that comes after another
  \<^verbatim>\<open>Start\<close> fails with \<^verbatim>\<open>ErrInvalidState\<close>, "services are already starting", whatever
  the earlier \<^verbatim>\<open>Start\<close> returned and whatever was called in between: at most one call gets
  past the guard.
\<close>

theorem Start_guard_never_reset:
  "do_calls cs sg w = (sg', w', rs) \<Longrightarrow> i < j \<Longrightarrow> j < length cs \<Longrightarrow>
   cs ! i = CallStart ks \<Longrightarrow> cs ! j = CallStart ks' \<Longrightarrow>
   rs ! j = Returned (Some (ServiceError ErrInvalidState ''services are already starting'' None))"
proof (induction cs arbitrary: sg w rs i j sg' w')
  case Nil
  then show ?case by simp
next
  case (Cons c cs)
  obtain sg1 w1 r1 where c: "do_call c sg w = (sg1, w1, r1)" by (cases "do_call c sg w") auto
  obtain sg2 w2 rs2 where d: "do_calls cs sg1 w1 = (sg2, w2, rs2)"
    by (cases "do_calls cs sg1 w1") auto
  from Cons.prems(1) c d have rs: "rs = r1 # rs2" by simp
  from Cons.prems(2) obtain k where j: "j = Suc k" by (cases j) auto
  with Cons.prems(3,5) have k: "k < length cs" "cs ! k = CallStart ks'" by simp_all
  show ?case
  proof (cases i)
    case 0
    with Cons.prems(4) have "c = CallStart ks" by simp
    with c ServiceGroup_Start_sets[of sg ks w] have "isStarting sg1" by simp
    from do_calls_guarded[OF this d k] rs j show ?thesis by (simp add: already_starting_def)
  next
    case (Suc i')
    with Cons.prems(2,4) j have "i' < k" "cs ! i' = CallStart ks" by simp_all
    from Cons.IH[OF d this(1) k(1) this(2) k(2)] rs j show ?thesis by simp
  qed
qed


theorem Start_guard_never_reset_witness:
  "(1::nat) < 4 \<and> 4 < length restart_calls
   \<and> restart_calls ! 1 = CallStart [''db''] \<and> restart_calls ! 4 = CallStart [''db'']
   \<and> snd (snd (do_calls restart_calls (NewServiceGroup DefaultServiceGroupOptions []) ())) ! 1 =
       Returned (Some (ServiceError ErrStartupFailed ''failed to start service db''
          (Some (Errorf ''start function failed: %w'' [ArgErr (Some (ErrorsNew ''boom''))]))))
   \<and> snd (snd (do_calls restart_calls (NewServiceGroup DefaultServiceGroupOptions []) ())) ! 4 =
       Returned (Some (ServiceError ErrInvalidState ''services are already starting'' None))"
proof -
  have d: "do_calls restart_calls (NewServiceGroup DefaultServiceGroupOptions []) () =
      (fst (do_calls restart_calls (NewServiceGroup DefaultServiceGroupOptions []) ()),
       fst (snd (do_calls restart_calls (NewServiceGroup DefaultServiceGroupOptions []) ())),
       snd (snd (do_calls restart_calls (NewServiceGroup DefaultServiceGroupOptions []) ())))"
    by (cases "do_calls restart_calls (NewServiceGroup DefaultServiceGroupOptions []) ()") auto
  have a: "(1::nat) < 4" "4 < length restart_calls"
    "restart_calls ! 1 = CallStart [''db'']" "restart_calls ! 4 = CallStart [''db'']"
    by (simp_all add: restart_calls_def)
  from Start_guard_never_reset[OF d a] a restart_results show ?thesis by blast
qed


end
